theory Spec2Isabelle
  imports Main "HOL-Library.Word"
begin

section \<open>Data model\<close>

text \<open>
  The constants of \<^verbatim>\<open>pkg/controller/controller.go\<close>.
\<close>

definition Version :: string where
  "Version = ''v1alpha1''"

definition Group :: string where
  "Group = ''samplecontroller.example.com''"

definition Kind :: string where
  "Kind = ''Foo''"

text \<open>
  An error value. \<^verbatim>\<open>RequestError\<close> is the client's own error type (a reply with an
  unsuccessful status code); every other error is an \<^verbatim>\<open>errorString\<close>;
  \<^verbatim>\<open>Errorf p e\<close> stands for \<^verbatim>\<open>fmt.Errorf(p + "%w", e)\<close>, an error that
  wraps \<open>e\<close> behind the prefix \<open>p\<close>.
\<close>

datatype error =
    RequestError (StatusCode: int) (Body: string)
  | errorString string
  | Errorf string error

text \<open>
  \<^verbatim>\<open>metav1.OwnerReference\<close> and \<^verbatim>\<open>metav1.ObjectMeta\<close>, reduced to the fields the
  controller reads or writes. The two pointer fields of an owner reference are options.
  The fields of the owner reference carry the prefix \<open>ref\<close> because \<open>Kind\<close>, \<open>Name\<close> and
  \<open>UID\<close> are taken by the constant and by the object metadata.
\<close>

record OwnerReference =
  refAPIVersion :: string
  refKind :: string
  refName :: string
  refUID :: string
  refController :: "bool option"
  refBlockOwnerDeletion :: "bool option"

record ObjectMeta =
  Name :: string
  Namespace :: string
  UID :: string
  ResourceVersion :: string
  OwnerReferences :: "OwnerReference list"

record FooSpec =
  DeploymentName :: string
  Replicas :: "32 word"

text \<open>\<^verbatim>\<open>Foo\<close> embeds the object metadata, as the Go struct does.\<close>

record Foo = ObjectMeta +
  Spec :: FooSpec

text \<open>
  \<^verbatim>\<open>appsv1.Deployment\<close>: the metadata and the part of the spec that \<^verbatim>\<open>newDeployment\<close>
  fills in. \<^verbatim>\<open>Replicas\<close> is a pointer to an int32 there, hence an option.
\<close>

record DeploymentSpec =
  depReplicas :: "32 word option"
  MatchLabels :: "(string \<times> string) list"
  TemplateLabels :: "(string \<times> string) list"
  Containers :: "(string \<times> string) list"

record Deployment = ObjectMeta +
  DSpec :: DeploymentSpec

text \<open>
  \<^verbatim>\<open>metav1.NewControllerRef\<close> is a function of the apimachinery library; the test
  \<^verbatim>\<open>TestFoo\<close> checks every field of the reference it returns, and this is what it checks.
\<close>

definition NewControllerRef :: "Foo \<Rightarrow> OwnerReference" where
  "NewControllerRef foo =
     \<lparr>refAPIVersion = Group @ ''/'' @ Version, refKind = Kind, refName = Name foo,
      refUID = UID foo, refController = Some True, refBlockOwnerDeletion = Some True\<rparr>"

text \<open>
  Modelled from the spec: \<^verbatim>\<open>metav1.IsControlledBy\<close> is a function of the apimachinery
  library, which is not among the sources. The spec gives the test as: the owner reference
  set establishes the managed resource as the controlling owner, by an exact match on kind,
  name and unique id, with the controlling flag set.
\<close>

definition IsControlledBy :: "Deployment \<Rightarrow> Foo \<Rightarrow> bool" where
  "IsControlledBy dep foo =
     list_ex (\<lambda>r. refKind r = Kind \<and> refName r = Name foo \<and> refUID r = UID foo
                  \<and> refController r = Some True)
       (OwnerReferences dep)"

definition newDeployment :: "Foo \<Rightarrow> Deployment" where
  "newDeployment foo =
     \<lparr>Name = DeploymentName (Spec foo), Namespace = Namespace foo, UID = [],
      ResourceVersion = [], OwnerReferences = [NewControllerRef foo],
      DSpec = \<lparr>depReplicas = Some (Replicas (Spec foo)),
               MatchLabels = [(''controller'', Name foo)],
               TemplateLabels = [(''controller'', Name foo)],
               Containers = [(''nginx'', ''nginx:latest'')]\<rparr>\<rparr>"

section \<open>The client's requests\<close>

text \<open>
  The three calls the controller makes through the client. What the server answers is not
  the controller's to decide: \<open>transport\<close> gives the error of the \<open>n\<close>-th request (or none,
  for a reply with a 2xx status), and \<open>sent\<close> records every request made, with its answer.
\<close>

datatype request =
    AddCustomResourceDefinition string
  | AddDeployment Deployment
  | UpdateDeployment Deployment

record KubeClient =
  transport :: "nat \<Rightarrow> request \<Rightarrow> error option"
  sent :: "(request \<times> error option) list"

definition putOrPost :: "KubeClient \<Rightarrow> request \<Rightarrow> error option \<times> KubeClient" where
  "putOrPost cl r =
     (let err = transport cl (length (sent cl)) r
      in (err, cl\<lparr>sent := sent cl @ [(r, err)]\<rparr>))"

section \<open>The synchronization pass\<close>

record controllerStatus =
  foos :: "string \<rightharpoonup> Foo"
  deployments :: "string \<rightharpoonup> Deployment"
  todo :: "string set"

datatype logLine =
    NotOwned string string
  | SynchronizeFailed error

text \<open>
  What \<^verbatim>\<open>synchronize\<close> reads and writes: the client, the status and the log.
\<close>

record pass =
  kube :: KubeClient
  st :: controllerStatus
  logged :: "logLine list"

text \<open>
  The body of the loop of \<^verbatim>\<open>synchronize\<close> ends in one of three ways: it goes on to the
  next name, it returns the error of a failed request, or it dereferences the nil
  \<^verbatim>\<open>Replicas\<close> pointer of the observed deployment, which is a runtime panic.
\<close>

datatype outcome =
    Next pass
  | Failed error pass
  | NilDereference

definition dropTodo :: "string \<Rightarrow> pass \<Rightarrow> pass" where
  "dropTodo item p = p\<lparr>st := (st p)\<lparr>todo := todo (st p) - {item}\<rparr>\<rparr>"

definition submit :: "pass \<Rightarrow> string \<Rightarrow> request \<Rightarrow> outcome" where
  "submit p item r =
     (case putOrPost (kube p) r of
        (Some err, cl) \<Rightarrow> Failed err (p\<lparr>kube := cl\<rparr>)
      | (None, cl) \<Rightarrow> Next (dropTodo item (p\<lparr>kube := cl\<rparr>)))"

definition syncItem :: "pass \<Rightarrow> string \<Rightarrow> outcome" where
  "syncItem p item =
     (case foos (st p) item of
        None \<Rightarrow> Next (dropTodo item p)
      | Some foo \<Rightarrow>
          (case deployments (st p) (DeploymentName (Spec foo)) of
             Some dep \<Rightarrow>
               if \<not> IsControlledBy dep foo
               then Next (p\<lparr>logged := logged p @ [NotOwned (Namespace dep) (Name dep)]\<rparr>)
               else (case depReplicas (DSpec dep) of
                       None \<Rightarrow> NilDereference
                     | Some r \<Rightarrow>
                         if Replicas (Spec foo) = r
                         then Next (dropTodo item p)
                         else submit p item
                                (UpdateDeployment
                                   ((newDeployment foo)
                                      \<lparr>ResourceVersion := ResourceVersion dep\<rparr>)))
           | None \<Rightarrow> submit p item (AddDeployment (newDeployment foo))))"

text \<open>
  \<^verbatim>\<open>for item := range status.todo\<close>. Go fixes no order for the keys of a map, so the
  order is an argument; a key that is not in the map is not visited.
\<close>

fun syncItems :: "pass \<Rightarrow> string list \<Rightarrow> outcome" where
  "syncItems p [] = Next p"
| "syncItems p (item # rest) =
     (if item \<notin> todo (st p) then syncItems p rest
      else (case syncItem p item of
              Next p' \<Rightarrow> syncItems p' rest
            | Failed err p' \<Rightarrow> Failed err p'
            | NilDereference \<Rightarrow> NilDereference))"

definition synchronize ::
  "KubeClient \<Rightarrow> controllerStatus \<Rightarrow> logLine list \<Rightarrow> string list \<Rightarrow> outcome" where
  "synchronize cl status lg order = syncItems \<lparr>kube = cl, st = status, logged = lg\<rparr> order"

section \<open>The controller\<close>

text \<open>
  A stop channel of the controller is nil until the watch is opened, then open, then closed.
\<close>

datatype chan = NilChan | OpenChan | ClosedChan

text \<open>
  \<^verbatim>\<open>Controller\<close>. The channel \<^verbatim>\<open>Errors\<close> is the list of the errors sent on it and
  whether it has been closed; \<open>rl\<close> counts the calls of \<^verbatim>\<open>AskTick\<close> on the rate limiter.
\<close>

record Controller =
  cNamespace :: string
  Errors :: "error list"
  ErrorsClosed :: bool
  stopFoos :: chan
  stopDeployments :: chan
  rl :: nat
  client :: KubeClient



text \<open>\<^verbatim>\<open>c.rl.AskTick()\<close>, a call through the interface \<^verbatim>\<open>RateLimiter\<close>.\<close>

definition rlAskTick :: "Controller \<Rightarrow> Controller" where
  "rlAskTick c = c\<lparr>rl := Suc (rl c)\<rparr>"

text \<open>
  A received value of \<^verbatim>\<open>kubeapi.WatchEvent\<close>. \<^verbatim>\<open>Item\<close> is an empty interface in Go;
  the type assertion on it panics when it does not hold a value of the expected type,
  which is \<open>None\<close> here.
\<close>

record 'a WatchEvent =
  IsDelete :: bool
  Item :: "'a option"
  Err :: "error option"

datatype phase = Running | Stopped | Crashed

text \<open>
  The state of \<^verbatim>\<open>processResources\<close>: the controller, the local status, the two channel
  variables (\<open>False\<close> once the variable has been set to nil), and the log.
\<close>

record loop =
  ctl :: Controller
  status :: controllerStatus
  deploymentsCh :: bool
  foosCh :: bool
  logs :: "logLine list"
  phase :: phase

text \<open>
  One input of the \<^verbatim>\<open>select\<close>: a receive on one of the two watch channels (\<open>None\<close> when
  the channel is closed) or a tick, which carries the order in which the pass that it
  starts ranges over the map \<^verbatim>\<open>todo\<close>.
\<close>

datatype input =
    FromDeployments "Deployment WatchEvent option"
  | FromFoos "Foo WatchEvent option"
  | FromTick "string list"

text \<open>The closure \<^verbatim>\<open>addTODO\<close>: the loop over the owner references returns at the first match.\<close>

fun addTODOrefs :: "loop \<Rightarrow> OwnerReference list \<Rightarrow> loop" where
  "addTODOrefs s [] = s"
| "addTODOrefs s (r # rs) =
     (if refKind r = Kind
      then s\<lparr>ctl := rlAskTick (ctl s),
             status := (status s)\<lparr>todo := insert (refName r) (todo (status s))\<rparr>\<rparr>
      else addTODOrefs s rs)"

definition addTODO :: "loop \<Rightarrow> Deployment \<Rightarrow> loop" where
  "addTODO s deployment = addTODOrefs s (OwnerReferences deployment)"

text \<open>
  The function returns: the deferred \<^verbatim>\<open>close(c.Errors)\<close> runs.
\<close>

definition returns :: "loop \<Rightarrow> loop" where
  "returns s = s\<lparr>ctl := (ctl s)\<lparr>ErrorsClosed := True\<rparr>, phase := Stopped\<rparr>"

text \<open>
  A send on \<^verbatim>\<open>c.Errors\<close>. The channel has no buffer: the host is taken to receive
  what is sent on it, as \<^verbatim>\<open>main\<close> and the tests do.
\<close>

definition sendError :: "error \<Rightarrow> loop \<Rightarrow> loop" where
  "sendError e s = s\<lparr>ctl := (ctl s)\<lparr>Errors := Errors (ctl s) @ [e]\<rparr>\<rparr>"

text \<open>
  The observed deployment is deleted from the map \<^verbatim>\<open>deployments\<close> or stored in it,
  under its name.
\<close>

definition observe :: "loop \<Rightarrow> bool \<Rightarrow> Deployment \<Rightarrow> loop" where
  "observe s isDelete newDep =
     s\<lparr>status := (status s)\<lparr>deployments :=
          (if isDelete then (deployments (status s))(Name newDep := None)
           else (deployments (status s))(Name newDep \<mapsto> newDep))\<rparr>\<rparr>"

definition onDeployment :: "loop \<Rightarrow> Deployment WatchEvent option \<Rightarrow> loop" where
  "onDeployment s r =
     (case r of
        None \<Rightarrow> s\<lparr>deploymentsCh := False\<rparr>
      | Some d \<Rightarrow>
          (case Err d of
             Some e \<Rightarrow> returns (sendError (Errorf ''Reading deployments: '' e) s)
           | None \<Rightarrow>
               (case Item d of
                  None \<Rightarrow> s\<lparr>phase := Crashed\<rparr>
                | Some newDep \<Rightarrow>
                    (let old = deployments (status s) (Name newDep);
                         s1 = observe s (IsDelete d) newDep;
                         s2 = addTODO s1 newDep
                     in (case old of
                           Some oldDep \<Rightarrow> addTODO s2 oldDep
                         | None \<Rightarrow> s2)))))"

definition onFoo :: "loop \<Rightarrow> Foo WatchEvent option \<Rightarrow> loop" where
  "onFoo s r =
     (case r of
        None \<Rightarrow> s\<lparr>foosCh := False\<rparr>
      | Some f \<Rightarrow>
          (case Err f of
             Some e \<Rightarrow> returns (sendError (Errorf ''Reading Foos: '' e) s)
           | None \<Rightarrow>
               (case Item f of
                  None \<Rightarrow> s\<lparr>phase := Crashed\<rparr>
                | Some newFoo \<Rightarrow>
                    s\<lparr>ctl := rlAskTick (ctl s),
                      status := (status s)\<lparr>
                        foos := (if IsDelete f
                                 then (foos (status s))(Name newFoo := None)
                                 else (foos (status s))(Name newFoo \<mapsto> newFoo)),
                        todo := insert (Name newFoo) (todo (status s))\<rparr>\<rparr>)))"

definition onTick :: "loop \<Rightarrow> string list \<Rightarrow> loop" where
  "onTick s order =
     (case synchronize (client (ctl s)) (status s) (logs s) order of
        Next p \<Rightarrow> s\<lparr>ctl := (ctl s)\<lparr>client := kube p\<rparr>, status := st p, logs := logged p\<rparr>
      | Failed err p \<Rightarrow>
          s\<lparr>ctl := rlAskTick ((ctl s)\<lparr>client := kube p\<rparr>), status := st p,
            logs := logged p @ [SynchronizeFailed err]\<rparr>
      | NilDereference \<Rightarrow> s\<lparr>phase := Crashed\<rparr>)"

text \<open>
  A case of the \<^verbatim>\<open>select\<close> on a channel variable that is nil is never chosen.
\<close>

fun ready :: "loop \<Rightarrow> input \<Rightarrow> bool" where
  "ready s (FromDeployments r) = deploymentsCh s"
| "ready s (FromFoos r) = foosCh s"
| "ready s (FromTick order) = True"

fun selectCase :: "loop \<Rightarrow> input \<Rightarrow> loop" where
  "selectCase s (FromDeployments r) = onDeployment s r"
| "selectCase s (FromFoos r) = onFoo s r"
| "selectCase s (FromTick order) = onTick s order"

text \<open>
  One iteration of the \<^verbatim>\<open>for\<close> loop: the chosen case, then the test of the two channel
  variables. Once the function has returned or the process has died, nothing is received.
\<close>

definition step :: "loop \<Rightarrow> input \<Rightarrow> loop" where
  "step s i =
     (if phase s \<noteq> Running \<or> \<not> ready s i then s
      else (let s' = selectCase s i
            in if phase s' = Running \<and> \<not> deploymentsCh s' \<and> \<not> foosCh s'
               then returns s' else s'))"

definition processResources :: "loop \<Rightarrow> input list \<Rightarrow> loop" where
  "processResources s ins = foldl step s ins"

section \<open>Starting\<close>

text \<open>
  \<^verbatim>\<open>apiextensionsv1.CustomResourceDefinition\<close>, reduced to the conditions of its status.
\<close>

record CustomResourceDefinitionCondition =
  condType :: string
  condStatus :: string

record CustomResourceDefinition = ObjectMeta +
  Conditions :: "CustomResourceDefinitionCondition list"

text \<open>
  The loop \<^verbatim>\<open>Outer\<close> of \<^verbatim>\<open>addCRD\<close> over the events of the watch on the definition.
  The list is everything the channel delivers before it is closed. \<open>None\<close> is the panic of
  the type assertion on the item.
\<close>

fun waitEstablished :: "CustomResourceDefinition WatchEvent list \<Rightarrow> error option option" where
  "waitEstablished [] = Some None"
| "waitEstablished (res # rest) =
     (case Err res of
        Some e \<Rightarrow> Some (Some e)
      | None \<Rightarrow>
          if IsDelete res then waitEstablished rest
          else (case Item res of
                  None \<Rightarrow> None
                | Some item \<Rightarrow>
                    if list_ex (\<lambda>cond. condType cond = ''Established''
                                      \<and> condStatus cond = ''True'') (Conditions item)
                    then Some None
                    else waitEstablished rest))"

definition addCRD ::
  "KubeClient \<Rightarrow> string \<Rightarrow> CustomResourceDefinition WatchEvent list
     \<Rightarrow> error option option \<times> KubeClient" where
  "addCRD cl name resources =
     (case putOrPost cl (AddCustomResourceDefinition name) of
        (Some (RequestError code body), cl') \<Rightarrow>
          if code \<noteq> 409 then (Some (Some (RequestError code body)), cl')
          else (waitEstablished resources, cl')
      | (_, cl') \<Rightarrow> (waitEstablished resources, cl'))"

definition addFooCRD ::
  "KubeClient \<Rightarrow> CustomResourceDefinition WatchEvent list
     \<Rightarrow> error option option \<times> KubeClient" where
  "addFooCRD cl resources = addCRD cl (''foos'' @ ''.'' @ Group) resources"

text \<open>
  \<^verbatim>\<open>NewController\<close> up to the start of the goroutine, and \<^verbatim>\<open>startAux\<close> up to the call
  of \<^verbatim>\<open>processResources\<close>, whose initial state it returns.
\<close>

definition NewController :: "KubeClient \<Rightarrow> string \<Rightarrow> Controller" where
  "NewController cl namespace =
     \<lparr>cNamespace = namespace, Errors = [], ErrorsClosed = False, stopFoos = NilChan,
      stopDeployments = NilChan, rl = 0, client = cl\<rparr>"

definition emptyStatus :: controllerStatus where
  "emptyStatus = \<lparr>foos = Map.empty, deployments = Map.empty, todo = {}\<rparr>"

definition startAux :: "Controller \<Rightarrow> CustomResourceDefinition WatchEvent list \<Rightarrow> loop" where
  "startAux c resources =
     (case addFooCRD (client c) resources of
        (None, cl) \<Rightarrow>
          \<lparr>ctl = c\<lparr>client := cl\<rparr>, status = emptyStatus, deploymentsCh = False,
           foosCh = False, logs = [], phase = Crashed\<rparr>
      | (Some (Some err), cl) \<Rightarrow>
          \<lparr>ctl = c\<lparr>client := cl, Errors := Errors c @ [Errorf ''Could not add CRD: '' err],
                   ErrorsClosed := True\<rparr>,
           status = emptyStatus, deploymentsCh = False, foosCh = False, logs = [],
           phase = Stopped\<rparr>
      | (Some None, cl) \<Rightarrow>
          \<lparr>ctl = c\<lparr>client := cl, stopFoos := OpenChan, stopDeployments := OpenChan\<rparr>,
           status = emptyStatus, deploymentsCh = True, foosCh = True, logs = [],
           phase = Running\<rparr>)"

section \<open>The watch producer\<close>

text \<open>
  \<^verbatim>\<open>parseEventType\<close>: the result is whether the event is a deletion.
\<close>

definition parseEventType :: "string \<Rightarrow> error + bool" where
  "parseEventType ty =
     (if ty = ''ADDED'' \<or> ty = ''MODIFIED'' then Inr False
      else if ty = ''DELETED'' then Inr True
      else Inl (errorString (''Invalid EventType: '' @ ty)))"

text \<open>
  What one call of \<^verbatim>\<open>decoder.Decode\<close> gives: an error, or an envelope with its type tag
  and the raw bytes of its object.
\<close>

datatype decoded =
    DecodeFails error
  | Envelope string string

text \<open>
  What happens to the producer, in order: a call of \<^verbatim>\<open>Decode\<close> returns, or the caller
  closes the stop channel, upon which the goroutine that waits for it closes the body of
  the response, with the given result. A send that races with the closing of the stop
  channel goes either way, as if the channel had been closed just after or just before it.
\<close>

datatype occurrence =
    Decode decoded
  | StopClosed "error option"

text \<open>
  The output channel as the list of the events received from it, and whether it is closed;
  whether the stop channel is closed; whether the goroutine that closes the body panicked.
\<close>

record 'a producer =
  out :: "'a WatchEvent list"
  outClosed :: bool
  stopCh :: bool
  panicked :: bool

definition errEvent :: "error \<Rightarrow> 'a WatchEvent" where
  "errEvent e = \<lparr>IsDelete = False, Item = None, Err = Some e\<rparr>"

text \<open>
  The closure \<^verbatim>\<open>send\<close>: nothing is sent once the stop channel is closed. The receiver is
  taken to receive what is sent to it.
\<close>

definition send :: "'a producer \<Rightarrow> 'a WatchEvent \<Rightarrow> 'a producer" where
  "send p ev = (if stopCh p then p else p\<lparr>out := out p @ [ev]\<rparr>)"

definition closeOut :: "'a producer \<Rightarrow> 'a producer" where
  "closeOut p = p\<lparr>outClosed := True\<rparr>"

text \<open>
  The loop of \<^verbatim>\<open>produceResources\<close> around \<^verbatim>\<open>decoder.Decode\<close>. \<open>unmarshal\<close> is
  \<^verbatim>\<open>json.Unmarshal\<close> into the type of the watched resource. When the input is used up,
  \<^verbatim>\<open>Decode\<close> fails with \<^verbatim>\<open>io.EOF\<close>.
\<close>

fun produceLoop ::
  "(string \<Rightarrow> error + 'a) \<Rightarrow> string \<Rightarrow> 'a producer \<Rightarrow> occurrence list \<Rightarrow> 'a producer" where
  "produceLoop unmarshal path p [] =
     closeOut (send p (errEvent
       (Errorf (''Could not decode WatchEvent('' @ path @ ''): '') (errorString ''EOF''))))"
| "produceLoop unmarshal path p (StopClosed cerr # rest) =
     (if stopCh p then produceLoop unmarshal path p rest
      else (case cerr of
              Some e \<Rightarrow> p\<lparr>stopCh := True, panicked := True\<rparr>
            | None \<Rightarrow> produceLoop unmarshal path (p\<lparr>stopCh := True\<rparr>) rest))"
| "produceLoop unmarshal path p (Decode (DecodeFails err) # rest) =
     closeOut (send p (errEvent
       (Errorf (''Could not decode WatchEvent('' @ path @ ''): '') err)))"
| "produceLoop unmarshal path p (Decode (Envelope ty raw) # rest) =
     (case parseEventType ty of
        Inl err \<Rightarrow> closeOut (send p (errEvent err))
      | Inr isDelete \<Rightarrow>
          (case unmarshal raw of
             Inl err \<Rightarrow>
               closeOut (send p (errEvent (Errorf ''Unmarshaling of resource failed: '' err)))
           | Inr obj \<Rightarrow>
               produceLoop unmarshal path
                 (send p \<lparr>IsDelete = isDelete, Item = Some obj, Err = None\<rparr>) rest))"

definition newProducer :: "'a producer" where
  "newProducer = \<lparr>out = [], outClosed = False, stopCh = False, panicked = False\<rparr>"

text \<open>
  \<^verbatim>\<open>produceResources\<close>: \<open>getErr\<close> is the error of the request that opens the watch, if
  it fails.
\<close>

definition produceResources ::
  "(string \<Rightarrow> error + 'a) \<Rightarrow> string \<Rightarrow> error option \<Rightarrow> occurrence list \<Rightarrow> 'a producer" where
  "produceResources unmarshal path getErr occs =
     (case getErr of
        Some err \<Rightarrow>
          closeOut (newProducer\<lparr>out := [errEvent (Errorf ''Watch failed: '' err)]\<rparr>)
      | None \<Rightarrow> produceLoop unmarshal path newProducer occs)"

section \<open>The rate limiter\<close>

text \<open>
  The timer of the goroutine of \<^verbatim>\<open>AfterOneSecondIdle\<close>: stopped, running, or expired with
  its value waiting in the channel \<^verbatim>\<open>timer.C\<close>.
\<close>

datatype timer = Idle | Armed | Fired

text \<open>
  The goroutine: whether it is still in its loop, its timer, and whether its variable
  \<^verbatim>\<open>tick\<close> is the tick channel rather than nil.
\<close>

record rateLimiterImpl =
  alive :: bool
  timer :: timer
  tickOn :: bool

definition AfterOneSecondIdle :: rateLimiterImpl where
  "AfterOneSecondIdle = \<lparr>alive = True, timer = Idle, tickOn = False\<rparr>"

text \<open>The four cases of the \<^verbatim>\<open>select\<close> of the goroutine.\<close>

datatype rlCase = RecvStop | RecvAsk | RecvTimer | SendTick

text \<open>
  The goroutine takes a case of its \<^verbatim>\<open>select\<close>. The result is \<open>None\<close> when the case
  cannot be taken: the goroutine has returned, nothing waits in \<^verbatim>\<open>timer.C\<close>, or the
  variable \<^verbatim>\<open>tick\<close> is nil.
\<close>

fun rlSelect :: "rateLimiterImpl \<Rightarrow> rlCase \<Rightarrow> rateLimiterImpl option" where
  "rlSelect r RecvStop = (if alive r then Some (r\<lparr>alive := False\<rparr>) else None)"
| "rlSelect r RecvAsk = (if alive r then Some (r\<lparr>timer := Armed\<rparr>) else None)"
| "rlSelect r RecvTimer =
     (if alive r \<and> timer r = Fired then Some (r\<lparr>timer := Idle, tickOn := True\<rparr>) else None)"
| "rlSelect r SendTick =
     (if alive r \<and> tickOn r then Some (r\<lparr>tickOn := False\<rparr>) else None)"

text \<open>
  The channels \<^verbatim>\<open>ask\<close> and \<^verbatim>\<open>stop\<close> have no buffer, and the goroutine is their only
  receiver: a send on one of them completes when the goroutine takes the matching case,
  and never when it cannot. \<open>None\<close> is a call that does not return.
\<close>

definition AskTick :: "rateLimiterImpl \<Rightarrow> rateLimiterImpl option" where
  "AskTick r = rlSelect r RecvAsk"

definition Stop :: "rateLimiterImpl \<Rightarrow> rateLimiterImpl option" where
  "Stop r = rlSelect r RecvStop"

text \<open>
  An execution of the goroutine and of its timer: the goroutine takes a case of its
  \<^verbatim>\<open>select\<close>, or the running timer expires and its value waits in \<^verbatim>\<open>timer.C\<close>.
\<close>

datatype rlEvent = Takes rlCase | Expires

fun rlStep :: "rateLimiterImpl \<Rightarrow> rlEvent \<Rightarrow> rateLimiterImpl option" where
  "rlStep r (Takes c) = rlSelect r c"
| "rlStep r Expires = (if timer r = Armed then Some (r\<lparr>timer := Fired\<rparr>) else None)"

fun rlRun :: "rateLimiterImpl \<Rightarrow> rlEvent list \<Rightarrow> rateLimiterImpl option" where
  "rlRun r [] = Some r"
| "rlRun r (e # es) = (case rlStep r e of None \<Rightarrow> None | Some r' \<Rightarrow> rlRun r' es)"

section \<open>The earlier revision of the watch producer\<close>

text \<open>
  The sources hold an earlier revision of the client, without the closure \<^verbatim>\<open>send\<close>.
  Its loop around \<^verbatim>\<open>decoder.Decode\<close> sends the error of \<^verbatim>\<open>parseEventType\<close> and goes
  on to send the result of its function \<^verbatim>\<open>unmarshal\<close>, which is an event with the error
  when the object does not unmarshal; only a failure of \<^verbatim>\<open>Decode\<close> ends it. This is
  that loop when the stop channel is never closed.
\<close>

definition unmarshalEvent :: "(string \<Rightarrow> error + 'a) \<Rightarrow> bool \<Rightarrow> string \<Rightarrow> 'a WatchEvent" where
  "unmarshalEvent unmarshal isDelete raw =
     (case unmarshal raw of
        Inl err \<Rightarrow> errEvent (Errorf ''Unmarshaling of resource failed: '' err)
      | Inr obj \<Rightarrow> \<lparr>IsDelete = isDelete, Item = Some obj, Err = None\<rparr>)"

fun produceLoopEarlier ::
  "(string \<Rightarrow> error + 'a) \<Rightarrow> string \<Rightarrow> decoded list \<Rightarrow> 'a WatchEvent list" where
  "produceLoopEarlier unmarshal path [] =
     [errEvent (Errorf (''Could not decode WatchEvent('' @ path @ ''): '') (errorString ''EOF''))]"
| "produceLoopEarlier unmarshal path (DecodeFails err # rest) =
     [errEvent (Errorf (''Could not decode WatchEvent('' @ path @ ''): '') err)]"
| "produceLoopEarlier unmarshal path (Envelope ty raw # rest) =
     (case parseEventType ty of
        Inl err \<Rightarrow>
          errEvent err # unmarshalEvent unmarshal False raw
            # produceLoopEarlier unmarshal path rest
      | Inr et \<Rightarrow> unmarshalEvent unmarshal et raw # produceLoopEarlier unmarshal path rest)"

section \<open>Vocabulary of the properties\<close>

text \<open>
  An ownership conflict for a name of the dirty set: the managed resource exists, the
  deployment it names has been observed, and that deployment is not controlled by it.
\<close>

definition conflict :: "controllerStatus \<Rightarrow> string \<Rightarrow> bool" where
  "conflict cs item =
     (case foos cs item of
        None \<Rightarrow> False
      | Some foo \<Rightarrow>
          (case deployments cs (DeploymentName (Spec foo)) of
             None \<Rightarrow> False
           | Some dep \<Rightarrow> \<not> IsControlledBy dep foo))"

text \<open>
  The work for a name of the dirty set is unnecessary when the deployment named by its
  managed resource is observed, controlled by it, and has the replica count it asks for.
\<close>

definition converged :: "controllerStatus \<Rightarrow> string \<Rightarrow> bool" where
  "converged cs item =
     (case foos cs item of
        None \<Rightarrow> False
      | Some foo \<Rightarrow>
          (case deployments cs (DeploymentName (Spec foo)) of
             None \<Rightarrow> False
           | Some dep \<Rightarrow>
               IsControlledBy dep foo \<and> depReplicas (DSpec dep) = Some (Replicas (Spec foo))))"

text \<open>
  The request the pass makes for a name when it makes one: an update that carries the
  resource version of the observed deployment, or a creation when none is observed.
\<close>

definition requestFor :: "controllerStatus \<Rightarrow> string \<Rightarrow> request option" where
  "requestFor cs item =
     (case foos cs item of
        None \<Rightarrow> None
      | Some foo \<Rightarrow>
          (case deployments cs (DeploymentName (Spec foo)) of
             None \<Rightarrow> Some (AddDeployment (newDeployment foo))
           | Some dep \<Rightarrow>
               Some (UpdateDeployment
                       ((newDeployment foo)\<lparr>ResourceVersion := ResourceVersion dep\<rparr>))))"

text \<open>
  A request for the name was answered without an error between two states of the client.
\<close>

definition succeeded :: "KubeClient \<Rightarrow> KubeClient \<Rightarrow> controllerStatus \<Rightarrow> string \<Rightarrow> bool" where
  "succeeded cl cl' cs item =
     (case requestFor cs item of
        None \<Rightarrow> False
      | Some r \<Rightarrow> (r, None) \<in> set (drop (length (sent cl)) (sent cl')))"

text \<open>
  The name in the first owner reference of a deployment whose kind is the kind of the
  managed resource, if there is one.
\<close>

definition firstOwner :: "Deployment \<Rightarrow> string option" where
  "firstOwner d = map_option refName (find (\<lambda>r. refKind r = Kind) (OwnerReferences d))"

text \<open>
  The answer to the registration request is an error that \<^verbatim>\<open>addCRD\<close> returns: a
  \<^verbatim>\<open>RequestError\<close> whose status code is not 409.
\<close>

definition rejected :: "error option \<Rightarrow> bool" where
  "rejected posted =
     (case posted of
        Some (RequestError code body) \<Rightarrow> code \<noteq> 409
      | _ \<Rightarrow> False)"

text \<open>
  A result of \<^verbatim>\<open>Decode\<close> that the producer cannot turn into an object: the decoding
  failed (a malformed envelope), the type tag is not one of the three, or the object does
  not unmarshal.
\<close>

definition broken :: "(string \<Rightarrow> error + 'a) \<Rightarrow> decoded \<Rightarrow> bool" where
  "broken unmarshal d =
     (case d of
        DecodeFails err \<Rightarrow> True
      | Envelope ty raw \<Rightarrow>
          ty \<notin> set [''ADDED'', ''MODIFIED'', ''DELETED''] \<or> isl (unmarshal raw))"

text \<open>
  An occurrence that does not end the producer: an envelope that is not broken, or the
  closing of the stop channel when the body of the response closes without an error.
\<close>

definition quiet :: "(string \<Rightarrow> error + 'a) \<Rightarrow> occurrence \<Rightarrow> bool" where
  "quiet unmarshal occ =
     (case occ of
        Decode d \<Rightarrow> \<not> broken unmarshal d
      | StopClosed cerr \<Rightarrow> cerr = None)"

text \<open>
  The stop channel is closed somewhere in a list of occurrences.
\<close>

definition stopRequested :: "occurrence list \<Rightarrow> bool" where
  "stopRequested occs = list_ex (\<lambda>occ. case occ of StopClosed cerr \<Rightarrow> True | Decode d \<Rightarrow> False) occs"

text \<open>
  The events of a list that carry an error.
\<close>

definition errorEvents :: "'a WatchEvent list \<Rightarrow> 'a WatchEvent list" where
  "errorEvents evs = filter (\<lambda>ev. Err ev \<noteq> None) evs"

section \<open>Example values\<close>

text \<open>
  The managed resource of the test \<^verbatim>\<open>TestFoo\<close>, the deployment the controller builds
  for it with the unique id of its owner reference changed to \<^verbatim>\<open>"wrong"\<close>, as the test
  does, and a client whose requests all succeed.
\<close>

definition exFoo :: Foo where
  "exFoo = \<lparr>Name = ''abc'', Namespace = ''xyz'', UID = ''2a198646'', ResourceVersion = [],
            OwnerReferences = [], Spec = \<lparr>DeploymentName = ''bar'', Replicas = 1\<rparr>\<rparr>"

definition exStolen :: Deployment where
  "exStolen = (newDeployment exFoo)
     \<lparr>OwnerReferences := [(NewControllerRef exFoo)\<lparr>refUID := ''wrong''\<rparr>]\<rparr>"

definition okClient :: KubeClient where
  "okClient = \<lparr>transport = (\<lambda>n r. None), sent = []\<rparr>"

definition exConflict :: pass where
  "exConflict = \<lparr>kube = okClient,
      st = \<lparr>foos = [''abc'' \<mapsto> exFoo], deployments = [''bar'' \<mapsto> exStolen], todo = {''abc''}\<rparr>,
      logged = []\<rparr>"

text \<open>
  A client whose requests all fail, as the deployment with three replicas does in the test;
  a running loop with a given client and status; a status with two names to visit, one of
  them without a managed resource; and the state in which the pass over it ends.
\<close>

definition failClient :: KubeClient where
  "failClient = \<lparr>transport = (\<lambda>n r. Some (RequestError 401 ''3 is not OK'')), sent = []\<rparr>"

definition runningWith :: "KubeClient \<Rightarrow> controllerStatus \<Rightarrow> loop" where
  "runningWith cl cs =
     \<lparr>ctl = (NewController cl ''default'')\<lparr>stopFoos := OpenChan, stopDeployments := OpenChan\<rparr>,
      status = cs, deploymentsCh = True, foosCh = True, logs = [], phase = Running\<rparr>"

definition exPending :: controllerStatus where
  "exPending = \<lparr>foos = [''abc'' \<mapsto> exFoo], deployments = Map.empty, todo = {''gone'', ''abc''}\<rparr>"

definition exFailed :: pass where
  "exFailed = \<lparr>kube = failClient\<lparr>sent := [(AddDeployment (newDeployment exFoo),
                                          Some (RequestError 401 ''3 is not OK''))]\<rparr>,
               st = exPending\<lparr>todo := {''abc''}\<rparr>, logged = []\<rparr>"

text \<open>
  A deployment with two owner references of the kind of the managed resource, to the
  names \<open>a\<close> and \<open>b\<close>, and the event that delivers a snapshot of an object.
\<close>

definition exTwoOwners :: Deployment where
  "exTwoOwners = (newDeployment exFoo)
     \<lparr>OwnerReferences := [(NewControllerRef exFoo)\<lparr>refName := ''a''\<rparr>,
                          (NewControllerRef exFoo)\<lparr>refName := ''b'', refController := None\<rparr>]\<rparr>"

definition upsert :: "'a \<Rightarrow> 'a WatchEvent" where
  "upsert x = \<lparr>IsDelete = False, Item = Some x, Err = None\<rparr>"

text \<open>
  A status with one name to synchronize, for which no deployment is observed, and the
  controller after \<^verbatim>\<open>RequestStop\<close>.
\<close>

definition exWaiting :: controllerStatus where
  "exWaiting = \<lparr>foos = [''abc'' \<mapsto> exFoo], deployments = Map.empty, todo = {''abc''}\<rparr>"


text \<open>
  A definition of the custom resource that reports the condition \<^verbatim>\<open>Established\<close>;
  clients whose requests fail without a reply, with the status 409, and with the status
  404, as in the test \<^verbatim>\<open>TestCreationError\<close>; and the deployment of the managed
  resource of the test as a server sends it when its JSON has no \<^verbatim>\<open>spec.replicas\<close>.
\<close>

definition exEstablished :: CustomResourceDefinition where
  "exEstablished = \<lparr>Name = ''foos.samplecontroller.example.com'', Namespace = [], UID = [],
      ResourceVersion = [], OwnerReferences = [],
      Conditions = [\<lparr>condType = ''Established'', condStatus = ''True''\<rparr>]\<rparr>"

definition refusedClient :: KubeClient where
  "refusedClient = \<lparr>transport = (\<lambda>n r. Some (errorString ''connection refused'')), sent = []\<rparr>"

definition conflictClient :: KubeClient where
  "conflictClient = \<lparr>transport = (\<lambda>n r. Some (RequestError 409 ''already exists'')), sent = []\<rparr>"

definition notFoundClient :: KubeClient where
  "notFoundClient = \<lparr>transport = (\<lambda>n r. Some (RequestError 404 ''dummy'')), sent = []\<rparr>"

definition exNoReplicas :: Deployment where
  "exNoReplicas = (newDeployment exFoo)
     \<lparr>DSpec := (DSpec (newDeployment exFoo))\<lparr>depReplicas := None\<rparr>\<rparr>"

text \<open>
  An unmarshalling function for the examples: it accepts one payload, for which it gives
  the managed resource of the test, and fails on every other.
\<close>

definition exUnmarshal :: "string \<Rightarrow> error + Foo" where
  "exUnmarshal raw =
     (if raw = ''{}'' then Inr exFoo else Inl (errorString ''unexpected end of JSON input''))"

section \<open>Properties of the synchronization pass\<close>

lemma submit_cases:
  "submit p item r = Failed err p' \<Longrightarrow>
     st p' = st p \<and> logged p' = logged p \<and> transport (kube p') = transport (kube p)
     \<and> sent (kube p') = sent (kube p) @ [(r, Some err)]"
  "submit p item r = Next p' \<Longrightarrow>
     st p' = (st p)\<lparr>todo := todo (st p) - {item}\<rparr> \<and> logged p' = logged p
     \<and> transport (kube p') = transport (kube p)
     \<and> sent (kube p') = sent (kube p) @ [(r, None)]"
  "submit p item r \<noteq> NilDereference"
  by (auto simp: submit_def putOrPost_def dropTodo_def Let_def split: option.splits)

lemma not_owned_step:
  assumes "foos (st p) item = Some foo"
    and "deployments (st p) (DeploymentName (Spec foo)) = Some dep"
    and "\<not> IsControlledBy dep foo"
  shows "syncItem p item = Next (p\<lparr>logged := logged p @ [NotOwned (Namespace dep) (Name dep)]\<rparr>)"
  using assms by (simp add: syncItem_def)

lemma syncItem_keeps_maps:
  "syncItem p x = Next p' \<or> syncItem p x = Failed e p' \<Longrightarrow>
     foos (st p') = foos (st p) \<and> deployments (st p') = deployments (st p)
     \<and> todo (st p') \<subseteq> todo (st p) \<and> todo (st p) - {x} \<subseteq> todo (st p')"
  by (auto simp: syncItem_def dropTodo_def dest!: submit_cases(1,2) split: option.splits if_splits)

lemma conflict_step:
  "conflict (st p) item \<Longrightarrow> \<exists>ns d. syncItem p item = Next (p\<lparr>logged := logged p @ [NotOwned ns d]\<rparr>)"
  by (auto simp: conflict_def syncItem_def split: option.splits)

lemma conflict_stays:
  "item \<in> todo (st p) \<Longrightarrow> conflict (st p) item \<Longrightarrow>
   syncItems p xs = Next p' \<or> syncItems p xs = Failed e p' \<Longrightarrow> item \<in> todo (st p')"
proof (induction xs arbitrary: p)
  case Nil
  then show ?case by simp
next
  case (Cons x xs)
  show ?case
  proof (cases "x \<in> todo (st p)")
    case False
    with Cons show ?thesis by simp
  next
    case True
    show ?thesis
    proof (cases "syncItem p x")
      case (Next q)
      have maps: "foos (st q) = foos (st p)" "deployments (st q) = deployments (st p)"
        "todo (st p) - {x} \<subseteq> todo (st q)"
        using syncItem_keeps_maps[of p x q] Next by auto
      have inq: "item \<in> todo (st q)"
      proof (cases "x = item")
        case True
        with conflict_step[OF Cons.prems(2)] Next Cons.prems(1) show ?thesis by auto
      next
        case False
        with maps Cons.prems(1) show ?thesis by auto
      qed
      have cq: "conflict (st q) item"
        unfolding conflict_def maps(1,2) using Cons.prems(2) by (simp add: conflict_def)
      from Next True Cons.prems(3) have "syncItems q xs = Next p' \<or> syncItems q xs = Failed e p'"
        by simp
      from Cons.IH[OF inq cq this] show ?thesis .
    next
      case (Failed e' q)
      with True Cons.prems(3) have "q = p'" by auto
      with syncItem_keeps_maps[of p x p' e'] Failed Cons.prems(1) conflict_step[OF Cons.prems(2)]
      show ?thesis by (cases "x = item") auto
    next
      case NilDereference
      with True Cons.prems show ?thesis by simp
    qed
  qed
qed

lemma syncItem_sent:
  "syncItem p x = Next q \<or> syncItem p x = Failed e q \<Longrightarrow>
     \<exists>ext. sent (kube q) = sent (kube p) @ ext"
  by (auto simp: syncItem_def dropTodo_def dest!: submit_cases(1,2) split: option.splits if_splits)

lemma syncItems_sent:
  "syncItems p xs = Next p' \<or> syncItems p xs = Failed e p' \<Longrightarrow>
     \<exists>ext. sent (kube p') = sent (kube p) @ ext"
proof (induction xs arbitrary: p)
  case Nil
  then show ?case by simp
next
  case (Cons x xs)
  show ?case
  proof (cases "x \<in> todo (st p)")
    case False
    with Cons show ?thesis by simp
  next
    case True
    show ?thesis
    proof (cases "syncItem p x")
      case (Next q)
      with True Cons.prems have "syncItems q xs = Next p' \<or> syncItems q xs = Failed e p'" by simp
      from Cons.IH[OF this] syncItem_sent[of p x q] Next show ?thesis by auto
    next
      case (Failed e' q)
      with True Cons.prems have "q = p'" by auto
      with syncItem_sent[of p x p' e'] Failed show ?thesis by auto
    next
      case NilDereference
      with True Cons.prems show ?thesis by simp
    qed
  qed
qed

lemma syncItem_removed:
  assumes "syncItem p x = Next q" and "x \<in> todo (st p)" and "x \<notin> todo (st q)"
  shows "foos (st p) x = None \<or> converged (st p) x
         \<or> (\<exists>r. requestFor (st p) x = Some r \<and> sent (kube q) = sent (kube p) @ [(r, None)])"
  using assms
  by (auto simp: syncItem_def dropTodo_def converged_def requestFor_def
           dest!: submit_cases(1,2) split: option.splits if_splits)

lemma syncItem_failed:
  assumes "syncItem p x = Failed e q"
  shows "st q = st p \<and> logged q = logged p
         \<and> (\<exists>r. requestFor (st p) x = Some r \<and> sent (kube q) = sent (kube p) @ [(r, Some e)])"
  using assms
  by (auto simp: syncItem_def dropTodo_def requestFor_def
           dest!: submit_cases(1,2) split: option.splits if_splits)

lemma succeeded_mono:
  assumes "succeeded clq cl' cs n" and "sent clq = sent cl @ ext"
  shows "succeeded cl cl' cs n"
proof -
  from assms(1) obtain r where r: "requestFor cs n = Some r"
    "(r, None) \<in> set (drop (length (sent clq)) (sent cl'))"
    by (auto simp: succeeded_def split: option.splits)
  have "drop (length (sent clq)) (sent cl') = drop (length ext) (drop (length (sent cl)) (sent cl'))"
    using assms(2) by (simp add: add.commute)
  with r(2) have "(r, None) \<in> set (drop (length (sent cl)) (sent cl'))"
    by (metis in_set_dropD)
  with r(1) show ?thesis by (simp add: succeeded_def)
qed

lemma syncItems_removed:
  "syncItems p xs = Next p' \<or> syncItems p xs = Failed e p' \<Longrightarrow>
   n \<in> todo (st p) \<Longrightarrow> n \<notin> todo (st p') \<Longrightarrow>
   foos (st p) n = None \<or> converged (st p) n \<or> succeeded (kube p) (kube p') (st p) n"
proof (induction xs arbitrary: p)
  case Nil
  then show ?case by auto
next
  case (Cons x xs)
  show ?case
  proof (cases "x \<in> todo (st p)")
    case False
    with Cons show ?thesis by simp
  next
    case True
    show ?thesis
    proof (cases "syncItem p x")
      case (Next q)
      with True Cons.prems(1)
      have rest: "syncItems q xs = Next p' \<or> syncItems q xs = Failed e p'" by simp
      have maps: "foos (st q) = foos (st p)" "deployments (st q) = deployments (st p)"
        "todo (st p) - {x} \<subseteq> todo (st q)"
        using syncItem_keeps_maps[of p x q] Next by auto
      obtain ext1 where ext1: "sent (kube q) = sent (kube p) @ ext1"
        using syncItem_sent[of p x q] Next by auto
      obtain ext2 where ext2: "sent (kube p') = sent (kube q) @ ext2"
        using syncItems_sent[OF rest] by auto
      show ?thesis
      proof (cases "n \<in> todo (st q)")
        case True
        from Cons.IH[OF rest True Cons.prems(3)]
        have "foos (st q) n = None \<or> converged (st q) n \<or> succeeded (kube q) (kube p') (st q) n" .
        moreover have "converged (st q) n = converged (st p) n"
          by (simp add: converged_def maps cong: option.case_cong)
        moreover have "succeeded (kube q) (kube p') (st q) n \<Longrightarrow> succeeded (kube p) (kube p') (st p) n"
        proof -
          assume a: "succeeded (kube q) (kube p') (st q) n"
          have "requestFor (st q) n = requestFor (st p) n" by (simp add: requestFor_def maps cong: option.case_cong)
          with a have "succeeded (kube q) (kube p') (st p) n" by (simp add: succeeded_def)
          from succeeded_mono[OF this ext1] show ?thesis .
        qed
        ultimately show ?thesis using maps(1) by auto
      next
        case False
        with maps(3) Cons.prems(2) have nx: "n = x" by auto
        from syncItem_removed[OF Next] True False nx
        consider "foos (st p) n = None" | "converged (st p) n"
          | r where "requestFor (st p) n = Some r" "sent (kube q) = sent (kube p) @ [(r, None)]"
          by auto
        then show ?thesis
        proof cases
          case 3
          then have "(r, None) \<in> set (drop (length (sent (kube p))) (sent (kube p')))"
            using ext2 by simp
          with 3(1) show ?thesis by (simp add: succeeded_def)
        qed auto
      qed
    next
      case (Failed e' q)
      with True Cons.prems(1) have "q = p'" by auto
      with syncItem_failed[of p x e' q] Failed Cons.prems(2,3) show ?thesis by auto
    next
      case NilDereference
      with True Cons.prems show ?thesis by simp
    qed
  qed
qed

lemma syncItems_append:
  "syncItems p xs = Next p1 \<Longrightarrow> syncItems p (xs @ ys) = syncItems p1 ys"
  by (induction xs arbitrary: p) (auto split: outcome.splits if_splits)

section \<open>Properties of the loop\<close>

lemma addTODOrefs_find:
  "addTODOrefs s rs =
     (case find (\<lambda>r. refKind r = Kind) rs of
        None \<Rightarrow> s
      | Some r \<Rightarrow> s\<lparr>ctl := rlAskTick (ctl s),
                     status := (status s)\<lparr>todo := insert (refName r) (todo (status s))\<rparr>\<rparr>)"
  by (induction rs) auto

lemma addTODO_fields:
  "todo (status s) \<subseteq> todo (status (addTODO s d))"
  "foos (status (addTODO s d)) = foos (status s)"
  "deployments (status (addTODO s d)) = deployments (status s)"
  "phase (addTODO s d) = phase s"
  "deploymentsCh (addTODO s d) = deploymentsCh s"
  "foosCh (addTODO s d) = foosCh s"
  "logs (addTODO s d) = logs s"
  "client (ctl (addTODO s d)) = client (ctl s)"
  "Errors (ctl (addTODO s d)) = Errors (ctl s)"
  "ErrorsClosed (ctl (addTODO s d)) = ErrorsClosed (ctl s)"
  "stopFoos (ctl (addTODO s d)) = stopFoos (ctl s)"
  "stopDeployments (ctl (addTODO s d)) = stopDeployments (ctl s)"
  by (auto simp: addTODO_def addTODOrefs_find rlAskTick_def split: option.splits)

lemma observe_fields:
  "todo (status (observe s b d)) = todo (status s)"
  "foos (status (observe s b d)) = foos (status s)"
  "phase (observe s b d) = phase s"
  "deploymentsCh (observe s b d) = deploymentsCh s"
  "foosCh (observe s b d) = foosCh s"
  "logs (observe s b d) = logs s"
  "ctl (observe s b d) = ctl s"
  by (simp_all add: observe_def)

lemma onDeployment_item:
  assumes "Err d = None" and "Item d = Some nd"
  shows "onDeployment s (Some d) =
           (case deployments (status s) (Name nd) of
              None \<Rightarrow> addTODO (observe s (IsDelete d) nd) nd
            | Some od \<Rightarrow> addTODO (addTODO (observe s (IsDelete d) nd) nd) od)"
  using assms by (simp add: onDeployment_def Let_def split: option.splits)

lemma onDeployment_todo:
  "todo (status s) \<subseteq> todo (status (onDeployment s r))"
proof (cases r)
  case None
  then show ?thesis by (simp add: onDeployment_def)
next
  case (Some d)
  show ?thesis
  proof (cases "Err d")
    case (Some e)
    with \<open>r = Some d\<close> show ?thesis by (simp add: onDeployment_def returns_def sendError_def)
  next
    case None
    show ?thesis
    proof (cases "Item d")
      case None
      with \<open>r = Some d\<close> \<open>Err d = None\<close> show ?thesis by (simp add: onDeployment_def)
    next
      case (Some nd)
      let ?s1 = "observe s (IsDelete d) nd"
      have 1: "todo (status s) \<subseteq> todo (status (addTODO ?s1 nd))"
        using addTODO_fields(1)[of ?s1 nd] by (simp add: observe_fields)
      have 2: "\<And>od. todo (status s) \<subseteq> todo (status (addTODO (addTODO ?s1 nd) od))"
        using addTODO_fields(1)[of "addTODO ?s1 nd"] 1 by blast
      from \<open>r = Some d\<close> 1 2 show ?thesis
        unfolding \<open>r = Some d\<close> onDeployment_item[OF \<open>Err d = None\<close> Some]
        by (simp split: option.splits)
    qed
  qed
qed

lemma onFoo_todo:
  "todo (status s) \<subseteq> todo (status (onFoo s r))"
  by (auto simp: onFoo_def returns_def sendError_def split: option.splits)

lemma returns_fields:
  "status (returns s) = status s" "client (ctl (returns s)) = client (ctl s)"
  "logs (returns s) = logs s"
  by (simp_all add: returns_def)

lemma step_status:
  "status (step s i) = (if phase s \<noteq> Running \<or> \<not> ready s i then status s
                        else status (selectCase s i))"
  "client (ctl (step s i)) = (if phase s \<noteq> Running \<or> \<not> ready s i then client (ctl s)
                        else client (ctl (selectCase s i)))"
  by (simp_all add: step_def Let_def returns_fields)

lemma onTick_removed:
  assumes "n \<in> todo (status s)" and "n \<notin> todo (status (onTick s order))"
  shows "foos (status s) n = None \<or> converged (status s) n
         \<or> succeeded (client (ctl s)) (client (ctl (onTick s order))) (status s) n"
proof (cases "synchronize (client (ctl s)) (status s) (logs s) order")
  case (Next p')
  let ?p = "\<lparr>kube = client (ctl s), st = status s, logged = logs s\<rparr>"
  from Next have r: "syncItems ?p order = Next p' \<or> syncItems ?p order = Failed undefined p'"
    by (simp add: synchronize_def)
  from Next assms(2) have "n \<notin> todo (st p')" by (simp add: onTick_def)
  from syncItems_removed[OF r _ this] assms(1) Next show ?thesis
    by (simp add: onTick_def)
next
  case (Failed e p')
  let ?p = "\<lparr>kube = client (ctl s), st = status s, logged = logs s\<rparr>"
  from Failed have r: "syncItems ?p order = Next p' \<or> syncItems ?p order = Failed e p'"
    by (simp add: synchronize_def)
  from Failed assms(2) have "n \<notin> todo (st p')" by (simp add: onTick_def)
  from syncItems_removed[OF r _ this] assms(1) Failed show ?thesis
    by (simp add: onTick_def rlAskTick_def)
next
  case NilDereference
  with assms show ?thesis by (simp add: onTick_def)
qed

lemma step_removed:
  assumes "n \<in> todo (status s)" and "n \<notin> todo (status (step s i))"
  shows "(\<exists>order. i = FromTick order)
         \<and> (foos (status s) n = None \<or> converged (status s) n
            \<or> succeeded (client (ctl s)) (client (ctl (step s i))) (status s) n)"
proof (cases "phase s \<noteq> Running \<or> \<not> ready s i")
  case True
  with assms show ?thesis by (simp add: step_status)
next
  case False
  then have st: "status (step s i) = status (selectCase s i)"
    "client (ctl (step s i)) = client (ctl (selectCase s i))"
    by (simp_all add: step_status)
  show ?thesis
  proof (cases i)
    case (FromDeployments r)
    with assms st onDeployment_todo[of s r] show ?thesis by auto
  next
    case (FromFoos r)
    with assms st onFoo_todo[of s r] show ?thesis by auto
  next
    case (FromTick order)
    with assms st onTick_removed[of n s order] show ?thesis by auto
  qed
qed

lemma onTick_conflict:
  assumes "n \<in> todo (status s)" and "conflict (status s) n"
  shows "n \<in> todo (status (onTick s order))"
proof (cases "synchronize (client (ctl s)) (status s) (logs s) order")
  case (Next p')
  let ?p = "\<lparr>kube = client (ctl s), st = status s, logged = logs s\<rparr>"
  from Next have r: "syncItems ?p order = Next p' \<or> syncItems ?p order = Failed undefined p'"
    by (simp add: synchronize_def)
  from conflict_stays[OF _ _ r] assms Next show ?thesis by (simp add: onTick_def)
next
  case (Failed e p')
  let ?p = "\<lparr>kube = client (ctl s), st = status s, logged = logs s\<rparr>"
  from Failed have r: "syncItems ?p order = Next p' \<or> syncItems ?p order = Failed e p'"
    by (simp add: synchronize_def)
  from conflict_stays[OF _ _ r] assms Failed show ?thesis by (simp add: onTick_def)
next
  case NilDereference
  with assms show ?thesis by (simp add: onTick_def)
qed

lemma step_conflict:
  assumes "n \<in> todo (status s)" and "conflict (status s) n"
  shows "n \<in> todo (status (step s i))"
proof (cases "phase s \<noteq> Running \<or> \<not> ready s i")
  case True
  with assms show ?thesis by (simp add: step_status)
next
  case False
  then have st: "status (step s i) = status (selectCase s i)"
    by (simp_all add: step_status)
  show ?thesis
  proof (cases i)
    case (FromDeployments r)
    with assms st onDeployment_todo[of s r] show ?thesis by auto
  next
    case (FromFoos r)
    with assms st onFoo_todo[of s r] show ?thesis by auto
  next
    case (FromTick order)
    with assms st onTick_conflict[of n s order] show ?thesis by auto
  qed
qed

lemma syncItems_failed:
  "syncItems p xs = Failed e p' \<Longrightarrow>
     \<exists>m r. m \<in> set xs \<and> m \<in> todo (st p') \<and> requestFor (st p) m = Some r
          \<and> sent (kube p') \<noteq> [] \<and> last (sent (kube p')) = (r, Some e)"
proof (induction xs arbitrary: p)
  case Nil
  then show ?case by simp
next
  case (Cons x xs)
  show ?case
  proof (cases "x \<in> todo (st p)")
    case False
    with Cons.prems have "syncItems p xs = Failed e p'" by simp
    from Cons.IH[OF this] show ?thesis by auto
  next
    case True
    show ?thesis
    proof (cases "syncItem p x")
      case (Next q)
      with True Cons.prems have rest: "syncItems q xs = Failed e p'" by simp
      have maps: "foos (st q) = foos (st p)" "deployments (st q) = deployments (st p)"
        using syncItem_keeps_maps[of p x q] Next by auto
      have "\<And>m. requestFor (st q) m = requestFor (st p) m"
        by (simp add: requestFor_def maps cong: option.case_cong)
      with Cons.IH[OF rest] show ?thesis by auto
    next
      case (Failed e' q)
      with True Cons.prems have "q = p'" "e' = e" by auto
      with syncItem_failed[of p x e q] Failed True show ?thesis by auto
    next
      case NilDereference
      with True Cons.prems show ?thesis by simp
    qed
  qed
qed

lemma failure_keeps_progress:
  assumes "syncItems p xs = Next p1" and "y \<in> todo (st p1)" and "syncItem p1 y = Failed e p2"
  shows "syncItems p (xs @ y # rest) = Failed e p2 \<and> st p2 = st p1"
  using syncItems_append[OF assms(1), of "y # rest"] assms(2,3) syncItem_failed[OF assms(3)]
  by simp

lemma ex_gone: "syncItem \<lparr>kube = failClient, st = exPending, logged = []\<rparr> ''gone''
   = Next \<lparr>kube = failClient, st = exPending\<lparr>todo := {''abc''}\<rparr>, logged = []\<rparr>"
  by (simp add: syncItem_def exPending_def dropTodo_def)

lemma ex_abc: "syncItem \<lparr>kube = failClient, st = exPending\<lparr>todo := {''abc''}\<rparr>, logged = []\<rparr> ''abc''
   = Failed (RequestError 401 ''3 is not OK'') exFailed"
  by (simp add: syncItem_def exPending_def exFoo_def submit_def putOrPost_def failClient_def exFailed_def Let_def)

lemma ex_pass: "synchronize failClient exPending [] [''gone'', ''abc''] =
   Failed (RequestError 401 ''3 is not OK'') exFailed"
  using ex_gone ex_abc by (simp add: synchronize_def exPending_def)

lemma addTODO_firstOwner:
  "todo (status (addTODO s d)) = todo (status s) \<union> set_option (firstOwner d)"
  "rl (ctl (addTODO s d)) = rl (ctl s) + (if firstOwner d = None then 0 else 1)"
  by (auto simp: addTODO_def addTODOrefs_find firstOwner_def rlAskTick_def split: option.splits)

lemma step_ready:
  "phase s = Running \<Longrightarrow> ready s i \<Longrightarrow>
     status (step s i) = status (selectCase s i) \<and> rl (ctl (step s i)) = rl (ctl (selectCase s i))"
  by (simp add: step_def Let_def returns_def)

lemma step_stopped: "phase s \<noteq> Running \<Longrightarrow> step s i = s"
  by (simp add: step_def)

lemma processResources_stopped: "phase s \<noteq> Running \<Longrightarrow> processResources s ins = s"
  unfolding processResources_def by (induction ins) (simp_all add: step_stopped)

lemma processResources_Cons: "processResources s (i # ins) = processResources (step s i) ins"
  by (simp add: processResources_def)


lemma step_error_deployments:
  assumes "phase s = Running" and "deploymentsCh s" and "Err d = Some e"
  shows "step s (FromDeployments (Some d)) =
           s\<lparr>ctl := (ctl s)\<lparr>Errors := Errors (ctl s) @ [Errorf ''Reading deployments: '' e],
                             ErrorsClosed := True\<rparr>,
             phase := Stopped\<rparr>"
  using assms by (simp add: step_def onDeployment_def returns_def sendError_def)

lemma step_error_foos:
  assumes "phase s = Running" and "foosCh s" and "Err f = Some e"
  shows "step s (FromFoos (Some f)) =
           s\<lparr>ctl := (ctl s)\<lparr>Errors := Errors (ctl s) @ [Errorf ''Reading Foos: '' e],
                             ErrorsClosed := True\<rparr>,
             phase := Stopped\<rparr>"
  using assms by (simp add: step_def onFoo_def returns_def sendError_def)




















lemma addCRD_result:
  "fst (addCRD cl name resources) =
     (let posted = transport cl (length (sent cl)) (AddCustomResourceDefinition name)
      in if rejected posted then Some posted else waitEstablished resources)"
  by (auto simp: addCRD_def putOrPost_def rejected_def Let_def split: option.splits error.splits)

lemma startAux_error:
  assumes "fst (addFooCRD (client c) resources) = Some (Some err)"
  shows "Errors (ctl (startAux c resources)) = Errors c @ [Errorf ''Could not add CRD: '' err]
         \<and> ErrorsClosed (ctl (startAux c resources))
         \<and> phase (startAux c resources) = Stopped
         \<and> stopFoos (ctl (startAux c resources)) = stopFoos c
         \<and> stopDeployments (ctl (startAux c resources)) = stopDeployments c
         \<and> sent (client (ctl (processResources (startAux c resources) ins)))
             = sent (client c) @ [(AddCustomResourceDefinition (''foos'' @ ''.'' @ Group),
                                   transport (client c) (length (sent (client c)))
                                     (AddCustomResourceDefinition (''foos'' @ ''.'' @ Group)))]
         \<and> processResources (startAux c resources) ins = startAux c resources"
proof -
  obtain r cl where r: "addFooCRD (client c) resources = (r, cl)" by (cases "addFooCRD (client c) resources")
  with assms have r': "r = Some (Some err)" by simp
  have cl: "cl = (client c)\<lparr>sent := sent (client c) @ [(AddCustomResourceDefinition (''foos'' @ ''.'' @ Group),
                                   transport (client c) (length (sent (client c)))
                                     (AddCustomResourceDefinition (''foos'' @ ''.'' @ Group)))]\<rparr>"
    using r by (auto simp: addFooCRD_def addCRD_def putOrPost_def Let_def split: option.splits error.splits if_splits)
  have s: "startAux c resources =
       \<lparr>ctl = c\<lparr>client := cl, Errors := Errors c @ [Errorf ''Could not add CRD: '' err],
                   ErrorsClosed := True\<rparr>,
           status = emptyStatus, deploymentsCh = False, foosCh = False, logs = [],
           phase = Stopped\<rparr>"
    using r r' by (simp add: startAux_def)
  have "processResources (startAux c resources) ins = startAux c resources"
    by (rule processResources_stopped) (simp add: s)
  then show ?thesis by (simp add: s cl)
qed

lemma syncItem_nil:
  "syncItem p item = NilDereference \<longleftrightarrow>
     (\<exists>foo dep. foos (st p) item = Some foo
        \<and> deployments (st p) (DeploymentName (Spec foo)) = Some dep
        \<and> IsControlledBy dep foo \<and> depReplicas (DSpec dep) = None)"
  by (auto simp: syncItem_def submit_cases(3) split: option.splits)

lemma syncItems_nil:
  "syncItems p xs = NilDereference \<Longrightarrow>
     \<exists>name dep. deployments (st p) name = Some dep \<and> depReplicas (DSpec dep) = None"
proof (induction xs arbitrary: p)
  case Nil
  then show ?case by simp
next
  case (Cons x xs)
  show ?case
  proof (cases "x \<in> todo (st p)")
    case False
    with Cons show ?thesis by simp
  next
    case True
    show ?thesis
    proof (cases "syncItem p x")
      case (Next q)
      with True Cons.prems have "syncItems q xs = NilDereference" by simp
      from Cons.IH[OF this] syncItem_keeps_maps[of p x q] Next show ?thesis by auto
    next
      case (Failed e q)
      with True Cons.prems show ?thesis by simp
    next
      case NilDereference
      then show ?thesis unfolding syncItem_nil by blast
    qed
  qed
qed

lemma ex_crash:
  "phase (processResources (runningWith okClient emptyStatus)
            [FromFoos (Some (upsert exFoo)), FromDeployments (Some (upsert exNoReplicas)),
             FromTick [''abc'']]) = Crashed"
proof -
  let ?s = "runningWith okClient emptyStatus"
  let ?s1 = "?s\<lparr>ctl := rlAskTick (ctl ?s),
                 status := \<lparr>foos = [''abc'' \<mapsto> exFoo], deployments = Map.empty, todo = {''abc''}\<rparr>\<rparr>"
  let ?s2 = "?s\<lparr>ctl := rlAskTick (rlAskTick (ctl ?s)),
                 status := \<lparr>foos = [''abc'' \<mapsto> exFoo], deployments = [''bar'' \<mapsto> exNoReplicas],
                             todo = {''abc''}\<rparr>\<rparr>"
  have 1: "step ?s (FromFoos (Some (upsert exFoo))) = ?s1"
    by (simp add: step_def onFoo_def upsert_def runningWith_def emptyStatus_def exFoo_def)
  have 2: "step ?s1 (FromDeployments (Some (upsert exNoReplicas))) = ?s2"
    by (simp add: step_def onDeployment_def upsert_def runningWith_def exNoReplicas_def
          newDeployment_def exFoo_def observe_def addTODO_def NewControllerRef_def Let_def)
  have c: "IsControlledBy exNoReplicas exFoo"
    by (simp add: IsControlledBy_def exNoReplicas_def newDeployment_def NewControllerRef_def)
  have n: "depReplicas (DSpec exNoReplicas) = None" "DeploymentName (Spec exFoo) = ''bar''"
    by (simp_all add: exNoReplicas_def exFoo_def)
  have "syncItem \<lparr>kube = client (ctl ?s2), st = status ?s2, logged = logs ?s2\<rparr> ''abc'' = NilDereference"
    unfolding syncItem_nil using c n by simp
  then have 3: "step ?s2 (FromTick [''abc'']) = ?s2\<lparr>phase := Crashed\<rparr>"
    by (simp add: step_def onTick_def synchronize_def runningWith_def)
  show ?thesis
    by (simp only: processResources_Cons 1 2 3) (simp add: processResources_def)
qed

section \<open>Properties of the watch producer\<close>

lemma parseEventType_ok:
  "ty \<in> set [''ADDED'', ''MODIFIED'', ''DELETED''] \<Longrightarrow> \<exists>b. parseEventType ty = Inr b"
  "ty \<notin> set [''ADDED'', ''MODIFIED'', ''DELETED''] \<Longrightarrow>
     parseEventType ty = Inl (errorString (''Invalid EventType: '' @ ty))"
  by (auto simp: parseEventType_def)

lemma produceLoop_broken:
  assumes "broken unmarshal d"
  shows "\<exists>e. \<forall>rest. produceLoop unmarshal path p (Decode d # rest) = closeOut (send p (errEvent e))"
proof (cases d)
  case (DecodeFails err)
  then show ?thesis by auto
next
  case (Envelope ty raw)
  show ?thesis
  proof (cases "ty \<in> set [''ADDED'', ''MODIFIED'', ''DELETED'']")
    case False
    from parseEventType_ok(2)[OF False] Envelope show ?thesis by auto
  next
    case True
    with assms Envelope obtain err where "unmarshal raw = Inl err"
      by (cases "unmarshal raw") (auto simp: broken_def)
    with parseEventType_ok(1)[OF True] Envelope show ?thesis by auto
  qed
qed

lemma produceLoop_quiet_decode:
  assumes "\<not> broken unmarshal d"
  shows "\<exists>ev. Err ev = None
          \<and> (\<forall>rest. produceLoop unmarshal path p (Decode d # rest) = produceLoop unmarshal path (send p ev) rest)"
proof (cases d)
  case (DecodeFails err)
  with assms show ?thesis by (simp add: broken_def)
next
  case (Envelope ty raw)
  with assms have ty: "ty \<in> set [''ADDED'', ''MODIFIED'', ''DELETED'']" and "\<not> isl (unmarshal raw)"
    by (auto simp: broken_def)
  then obtain obj where "unmarshal raw = Inr obj" by (cases "unmarshal raw") auto
  moreover from parseEventType_ok(1)[OF ty] obtain b where "parseEventType ty = Inr b" by auto
  ultimately show ?thesis using Envelope
    by (intro exI[of _ "\<lparr>IsDelete = b, Item = Some obj, Err = None\<rparr>"]) simp
qed

lemma stopCh_idem: "stopCh p \<Longrightarrow> p\<lparr>stopCh := True\<rparr> = p"
  by (cases p) simp

lemma produceLoop_prefix:
  assumes "\<forall>occ \<in> set pre. quiet unmarshal occ" and "\<not> panicked p"
  shows "\<exists>evs. (\<forall>ev \<in> set evs. Err ev = None)
           \<and> (\<not> stopCh p \<and> \<not> stopRequested pre \<longrightarrow> length evs = length pre)
           \<and> (\<forall>rest. produceLoop unmarshal path p (pre @ rest) =
               produceLoop unmarshal path
                 (p\<lparr>out := out p @ evs, stopCh := stopCh p \<or> stopRequested pre\<rparr>) rest)"
  using assms
proof (induction pre arbitrary: p)
  case Nil
  show ?case by (rule exI[of _ "[]"]) (simp add: stopRequested_def)
next
  case (Cons occ pre)
  show ?case
  proof (cases occ)
    case (StopClosed cerr)
    with Cons.prems(1) have c: "cerr = None" by (simp add: quiet_def)
    let ?p = "p\<lparr>stopCh := True\<rparr>"
    have step: "\<And>rest. produceLoop unmarshal path p ((occ # pre) @ rest) = produceLoop unmarshal path ?p (pre @ rest)"
      using StopClosed c by (cases "stopCh p") (simp_all add: stopCh_idem)
    from Cons.IH[of ?p] Cons.prems obtain evs where evs: "\<forall>ev \<in> set evs. Err ev = None"
      "\<And>rest. produceLoop unmarshal path ?p (pre @ rest) =
         produceLoop unmarshal path (?p\<lparr>out := out ?p @ evs, stopCh := stopCh ?p \<or> stopRequested pre\<rparr>) rest"
      by auto
    have "stopRequested (occ # pre)" using StopClosed by (simp add: stopRequested_def)
    with evs step show ?thesis by (intro exI[of _ evs]) simp
  next
    case (Decode d)
    with Cons.prems(1) have "\<not> broken unmarshal d" by (simp add: quiet_def)
    from produceLoop_quiet_decode[OF this, of path p] obtain ev where ev: "Err ev = None"
      "\<And>rest. produceLoop unmarshal path p (Decode d # rest) = produceLoop unmarshal path (send p ev) rest"
      by auto
    have np: "\<not> panicked (send p ev)" using Cons.prems(2) by (simp add: send_def)
    from Cons.IH[OF _ np] Cons.prems(1) obtain evs where evs: "\<forall>ev \<in> set evs. Err ev = None"
      "\<not> stopCh (send p ev) \<and> \<not> stopRequested pre \<longrightarrow> length evs = length pre"
      "\<And>rest. produceLoop unmarshal path (send p ev) (pre @ rest) =
         produceLoop unmarshal path ((send p ev)\<lparr>out := out (send p ev) @ evs,
            stopCh := stopCh (send p ev) \<or> stopRequested pre\<rparr>) rest"
      by auto
    have sr: "stopRequested (occ # pre) = stopRequested pre"
      using Decode by (simp add: stopRequested_def)
    show ?thesis
    proof (cases "stopCh p")
      case True
      with evs ev Decode sr show ?thesis
        by (intro exI[of _ evs]) (simp add: send_def)
    next
      case False
      with evs ev Decode sr show ?thesis
        by (intro exI[of _ "ev # evs"]) (simp add: send_def)
    qed
  qed
qed

section \<open>Properties of the rate limiter\<close>

lemma rlStep_alive:
  "rlStep r e = Some r' \<Longrightarrow> alive r' = (alive r \<and> e \<noteq> Takes RecvStop)"
  by (cases e; cases "case e of Takes c \<Rightarrow> c | Expires \<Rightarrow> RecvAsk") (auto split: if_splits)

lemma rlRun_alive:
  "rlRun r0 evs = Some r \<Longrightarrow> alive r = (alive r0 \<and> Takes RecvStop \<notin> set evs)"
proof (induction evs arbitrary: r0)
  case Nil
  then show ?case by simp
next
  case (Cons e es)
  then obtain r1 where r1: "rlStep r0 e = Some r1" "rlRun r1 es = Some r"
    by (auto split: option.splits)
  from Cons.IH[OF r1(2)] rlStep_alive[OF r1(1)] show ?case by auto
qed

section \<open>Errors on a watch stream\<close>

text \<open>
  C1, as the code has it. When the running loop receives an event with an error from the
  deployments stream or from the stream of managed resources, it sends exactly one error on
  its error output, the received error behind the prefix that names the stream, closes the
  error output and returns; nothing else of its state changes, so that neither stop
  channel is closed by it, and no input that follows is received.
\<close>

theorem watch_error_stops_loop:
  assumes "phase s = Running"
  shows "(deploymentsCh s \<and> Err d = Some e \<longrightarrow>
            processResources s (FromDeployments (Some d) # ins) =
              s\<lparr>ctl := (ctl s)\<lparr>Errors := Errors (ctl s) @ [Errorf ''Reading deployments: '' e],
                                ErrorsClosed := True\<rparr>,
                phase := Stopped\<rparr>)
       \<and> (foosCh s \<and> Err f = Some e \<longrightarrow>
            processResources s (FromFoos (Some f) # ins) =
              s\<lparr>ctl := (ctl s)\<lparr>Errors := Errors (ctl s) @ [Errorf ''Reading Foos: '' e],
                                ErrorsClosed := True\<rparr>,
                phase := Stopped\<rparr>)"
  using assms step_error_deployments[of s d e] step_error_foos[of s f e]
  by (auto simp: processResources_Cons processResources_stopped)

theorem watch_error_stops_loop_witness:
  "processResources (runningWith okClient exWaiting)
     [FromFoos (Some (errEvent (errorString ''decode failed''))), FromDeployments None,
      FromTick [''abc'']]
   = (runningWith okClient exWaiting)
       \<lparr>ctl := (ctl (runningWith okClient exWaiting))
                 \<lparr>Errors := [Errorf ''Reading Foos: '' (errorString ''decode failed'')],
                  ErrorsClosed := True\<rparr>,
        phase := Stopped\<rparr>
   \<and> processResources (runningWith okClient exWaiting)
     [FromDeployments (Some (errEvent (errorString ''decode failed''))), FromFoos None]
   = (runningWith okClient exWaiting)
       \<lparr>ctl := (ctl (runningWith okClient exWaiting))
                 \<lparr>Errors := [Errorf ''Reading deployments: '' (errorString ''decode failed'')],
                  ErrorsClosed := True\<rparr>,
        phase := Stopped\<rparr>"
proof -
  let ?s = "runningWith okClient exWaiting"
  let ?ev = "errEvent (errorString ''decode failed'')"
  have h: "phase ?s = Running" "foosCh ?s" "deploymentsCh ?s" "Errors (ctl ?s) = []"
    by (simp_all add: runningWith_def NewController_def)
  have e: "Err (?ev :: Foo WatchEvent) = Some (errorString ''decode failed'')"
    "Err (?ev :: Deployment WatchEvent) = Some (errorString ''decode failed'')"
    by (simp_all add: errEvent_def)
  from watch_error_stops_loop[OF h(1), where f = ?ev and e = "errorString ''decode failed''"] h(2) e(1) h(4)
  have 1: "processResources ?s [FromFoos (Some ?ev), FromDeployments None, FromTick [''abc'']]
     = ?s\<lparr>ctl := (ctl ?s)\<lparr>Errors := [Errorf ''Reading Foos: '' (errorString ''decode failed'')],
                  ErrorsClosed := True\<rparr>, phase := Stopped\<rparr>"
    by simp
  from watch_error_stops_loop[OF h(1), where d = ?ev and e = "errorString ''decode failed''"] h(3) e(2) h(4)
  have 2: "processResources ?s [FromDeployments (Some ?ev), FromFoos None]
     = ?s\<lparr>ctl := (ctl ?s)\<lparr>Errors := [Errorf ''Reading deployments: '' (errorString ''decode failed'')],
                  ErrorsClosed := True\<rparr>, phase := Stopped\<rparr>"
    by simp
  from 1 2 show ?thesis by simp
qed

text \<open>
  The claim as stated has the loop cancel both watches and drain them. After the error
  both stop channels are still open, and the closing of the other stream, which follows,
  is not received: the channel variable of the loop is not set to nil.
\<close>

theorem watch_error_cancels_nothing:
  "stopFoos (ctl (processResources (runningWith okClient exWaiting)
      [FromFoos (Some (errEvent (errorString ''decode failed''))), FromDeployments None])) = OpenChan
   \<and> stopDeployments (ctl (processResources (runningWith okClient exWaiting)
      [FromFoos (Some (errEvent (errorString ''decode failed''))), FromDeployments None])) = OpenChan
   \<and> deploymentsCh (processResources (runningWith okClient exWaiting)
      [FromFoos (Some (errEvent (errorString ''decode failed''))), FromDeployments None])"
proof -
  let ?s = "runningWith okClient exWaiting"
  let ?t = "?s\<lparr>ctl := (ctl ?s)\<lparr>Errors := Errors (ctl ?s) @ [Errorf ''Reading Foos: '' (errorString ''decode failed'')],
                             ErrorsClosed := True\<rparr>, phase := Stopped\<rparr>"
  have "step ?s (FromFoos (Some (errEvent (errorString ''decode failed'')))) = ?t"
    by (rule step_error_foos) (simp_all add: runningWith_def errEvent_def)
  moreover have "processResources ?t [FromDeployments None] = ?t"
    by (rule processResources_stopped) simp
  ultimately have "processResources ?s
      [FromFoos (Some (errEvent (errorString ''decode failed''))), FromDeployments None] = ?t"
    by (simp add: processResources_Cons)
  then show ?thesis
    by (simp add: runningWith_def NewController_def)
qed

section \<open>Failures of decoding\<close>

text \<open>
  C2, as the code has it. For every watch stream and every sequence of results of the
  decoder: when, after envelopes that are in order, the decoding meets a malformed
  envelope, an object that does not unmarshal or a type tag other than the three, the
  producer closes the stream and reads nothing further (what follows in the input does
  not change the result). If the stop channel has not been closed by then, the stream has
  emitted exactly one event with an error, as its last event, after one event for each
  envelope before it; if the stop channel has been closed, the error is not sent and the
  stream has emitted no event with an error.
\<close>

theorem decode_failure_ends_stream:
  assumes "\<forall>occ \<in> set pre. quiet unmarshal occ" and "broken unmarshal d"
  shows "outClosed (produceResources unmarshal path None (pre @ Decode d # rest))
         \<and> \<not> panicked (produceResources unmarshal path None (pre @ Decode d # rest))
         \<and> produceResources unmarshal path None (pre @ Decode d # rest)
             = produceResources unmarshal path None (pre @ [Decode d])
         \<and> (if stopRequested pre
             then errorEvents (out (produceResources unmarshal path None (pre @ Decode d # rest))) = []
             else length (errorEvents (out (produceResources unmarshal path None (pre @ Decode d # rest)))) = 1
                  \<and> Err (last (out (produceResources unmarshal path None (pre @ Decode d # rest)))) \<noteq> None
                  \<and> length (out (produceResources unmarshal path None (pre @ Decode d # rest)))
                      = length pre + 1)"
proof -
  let ?new = "newProducer :: 'a producer"
  have np: "\<not> panicked ?new" "\<not> stopCh ?new" "out ?new = []"
    by (simp_all add: newProducer_def)
  from produceLoop_prefix[OF assms(1) np(1), of path] obtain evs where evs:
    "\<forall>ev \<in> set evs. Err ev = None"
    "\<not> stopRequested pre \<longrightarrow> length evs = length pre"
    "\<And>rest. produceLoop unmarshal path ?new (pre @ rest) =
       produceLoop unmarshal path (?new\<lparr>out := out ?new @ evs, stopCh := stopCh ?new \<or> stopRequested pre\<rparr>) rest"
    using np(2) by auto
  let ?p = "?new\<lparr>out := evs, stopCh := stopRequested pre\<rparr>"
  from produceLoop_broken[OF assms(2), of path ?p] obtain e where e:
    "\<And>rest. produceLoop unmarshal path ?p (Decode d # rest) = closeOut (send ?p (errEvent e))"
    by auto
  have r: "\<And>rest. produceResources unmarshal path None (pre @ Decode d # rest)
             = closeOut (send ?p (errEvent e))"
    using evs(3) e np by (simp add: produceResources_def)
  have noerr: "errorEvents evs = []"
    using evs(1) by (simp add: errorEvents_def filter_empty_conv)
  have same: "produceResources unmarshal path None (pre @ Decode d # rest)
             = produceResources unmarshal path None (pre @ [Decode d])"
    using r[of rest] r[of "[]"] by simp
  show ?thesis
    unfolding same unfolding r
    using noerr evs(2) np(1)
    by (simp add: closeOut_def send_def errorEvents_def errEvent_def)
qed

theorem decode_failure_ends_stream_witness:
  "quiet exUnmarshal (Decode (Envelope ''ADDED'' ''{}''))
   \<and> broken exUnmarshal (Envelope ''XYZ'' ''{}'')
   \<and> \<not> stopRequested [Decode (Envelope ''ADDED'' ''{}'')]
   \<and> produceResources exUnmarshal ''foos'' None
        ([Decode (Envelope ''ADDED'' ''{}'')] @ Decode (Envelope ''XYZ'' ''{}'')
           # [Decode (Envelope ''DELETED'' ''{}'')])
      = \<lparr>out = [upsert exFoo, errEvent (errorString ''Invalid EventType: XYZ'')],
         outClosed = True, stopCh = False, panicked = False\<rparr>
   \<and> length (errorEvents (out (produceResources exUnmarshal ''foos'' None
        ([Decode (Envelope ''ADDED'' ''{}'')] @ Decode (Envelope ''XYZ'' ''{}'')
           # [Decode (Envelope ''DELETED'' ''{}'')])))) = 1"
proof -
  have q: "\<forall>occ \<in> set [Decode (Envelope ''ADDED'' ''{}'')]. quiet exUnmarshal occ"
    by (simp add: quiet_def broken_def exUnmarshal_def)
  have b: "broken exUnmarshal (Envelope ''XYZ'' ''{}'')"
    by (simp add: broken_def)
  have n: "\<not> stopRequested [Decode (Envelope ''ADDED'' ''{}'')]"
    by (simp add: stopRequested_def)
  have v: "produceResources exUnmarshal ''foos'' None
             ([Decode (Envelope ''ADDED'' ''{}'')] @ [Decode (Envelope ''XYZ'' ''{}'')])
           = \<lparr>out = [upsert exFoo, errEvent (errorString ''Invalid EventType: XYZ'')],
              outClosed = True, stopCh = False, panicked = False\<rparr>"
    by (simp add: produceResources_def newProducer_def parseEventType_def exUnmarshal_def
          send_def closeOut_def upsert_def)
  from decode_failure_ends_stream[OF q b, of "''foos''" "[Decode (Envelope ''DELETED'' ''{}'')]"] n v
  show ?thesis using q b by (simp add: errorEvents_def upsert_def errEvent_def)
qed

text \<open>
  The claim as stated has one error event for every input. The closure \<^verbatim>\<open>send\<close> drops
  the event once the stop channel is closed: an envelope with the type tag \<^verbatim>\<open>XYZ\<close> that
  is decoded after that ends the stream without any error event.
\<close>

theorem stop_swallows_decode_failure:
  "broken exUnmarshal (Envelope ''XYZ'' ''{}'')
   \<and> produceResources exUnmarshal ''foos'' None
        [Decode (Envelope ''ADDED'' ''{}''), StopClosed None, Decode (Envelope ''XYZ'' ''{}'')]
      = \<lparr>out = [upsert exFoo], outClosed = True, stopCh = True, panicked = False\<rparr>
   \<and> errorEvents [upsert exFoo] = []"
  by (simp add: produceResources_def newProducer_def parseEventType_def exUnmarshal_def
        send_def closeOut_def upsert_def broken_def errorEvents_def)

text \<open>
  In the earlier revision of the producer an unknown type tag does not end the stream: the
  error event is followed by the events of the same and of the following envelopes.
\<close>

lemma earlier_revision_goes_on:
  "produceLoopEarlier exUnmarshal ''foos'' [Envelope ''XYZ'' ''{}'', Envelope ''DELETED'' ''{}'']
     = [errEvent (errorString ''Invalid EventType: XYZ''), upsert exFoo,
        \<lparr>IsDelete = True, Item = Some exFoo, Err = None\<rparr>,
        errEvent (Errorf ''Could not decode WatchEvent(foos): '' (errorString ''EOF''))]"
  by (simp add: parseEventType_def unmarshalEvent_def exUnmarshal_def upsert_def)

section \<open>Deployment events\<close>

text \<open>
  C3, as the code has it. For every deployment event the running loop receives (a snapshot
  or a deletion): the dirty set gains the name in the first owner reference of the event's
  deployment whose kind is the managed-resource kind, and, when a deployment of that name
  had been observed, the name in the first such owner reference of the previous snapshot;
  nothing else changes in it; and the rate limiter is asked for a tick once for each of
  the two names that is added.
\<close>

theorem deployment_event_marks_first_owner:
  assumes "phase s = Running" and "deploymentsCh s"
    and "Err d = None" and "Item d = Some nd"
  shows "todo (status (step s (FromDeployments (Some d)))) =
           todo (status s) \<union> set_option (firstOwner nd)
           \<union> (case deployments (status s) (Name nd) of
                None \<Rightarrow> {}
              | Some od \<Rightarrow> set_option (firstOwner od))
         \<and> rl (ctl (step s (FromDeployments (Some d)))) =
             rl (ctl s) + (if firstOwner nd = None then 0 else 1)
             + (case deployments (status s) (Name nd) of
                  None \<Rightarrow> 0
                | Some od \<Rightarrow> if firstOwner od = None then 0 else 1)"
proof -
  have "status (step s (FromDeployments (Some d))) = status (onDeployment s (Some d))"
    "rl (ctl (step s (FromDeployments (Some d)))) = rl (ctl (onDeployment s (Some d)))"
    using step_ready[of s "FromDeployments (Some d)"] assms(1,2) by simp_all
  then show ?thesis
    unfolding onDeployment_item[OF assms(3,4)]
    by (simp add: addTODO_firstOwner observe_fields Un_assoc split: option.splits)
qed

theorem deployment_event_marks_first_owner_witness:
  "todo (status (step (runningWith okClient emptyStatus) (FromDeployments (Some (upsert exTwoOwners)))))
     = {''a''}
   \<and> rl (ctl (step (runningWith okClient emptyStatus) (FromDeployments (Some (upsert exTwoOwners)))))
     = 1"
proof -
  let ?s = "runningWith okClient emptyStatus"
  have h: "phase ?s = Running" "deploymentsCh ?s" "Err (upsert exTwoOwners) = None"
    "Item (upsert exTwoOwners) = Some exTwoOwners"
    by (simp_all add: runningWith_def upsert_def)
  have f: "firstOwner exTwoOwners = Some ''a''"
    by (simp add: firstOwner_def exTwoOwners_def NewControllerRef_def Kind_def)
  have e: "deployments (status ?s) (Name exTwoOwners) = None" "todo (status ?s) = {}"
    "rl (ctl ?s) = 0"
    by (simp_all add: runningWith_def emptyStatus_def NewController_def)
  from deployment_event_marks_first_owner[OF h] f e show ?thesis by simp
qed

text \<open>
  The claim as stated asks for every matching owner reference. The loop of \<^verbatim>\<open>addTODO\<close>
  returns at the first one: of two owner references of the kind \<^verbatim>\<open>Foo\<close>, the name of
  the second is not added.
\<close>

theorem second_owner_not_marked:
  "refKind ((NewControllerRef exFoo)\<lparr>refName := ''b'', refController := None\<rparr>) = Kind
   \<and> (NewControllerRef exFoo)\<lparr>refName := ''b'', refController := None\<rparr>
       \<in> set (OwnerReferences exTwoOwners)
   \<and> refName ((NewControllerRef exFoo)\<lparr>refName := ''b'', refController := None\<rparr>)
       \<notin> todo (status (step (runningWith okClient emptyStatus)
                          (FromDeployments (Some (upsert exTwoOwners)))))"
proof -
  let ?s = "runningWith okClient emptyStatus"
  have r: "phase ?s = Running" "ready ?s (FromDeployments (Some (upsert exTwoOwners)))"
    by (simp_all add: runningWith_def)
  have "status (step ?s (FromDeployments (Some (upsert exTwoOwners))))
          = status (onDeployment ?s (Some (upsert exTwoOwners)))"
    using step_ready[OF r] by simp
  also have "onDeployment ?s (Some (upsert exTwoOwners))
          = addTODO (observe ?s False exTwoOwners) exTwoOwners"
    by (simp add: onDeployment_item upsert_def runningWith_def emptyStatus_def)
  finally have "todo (status (step ?s (FromDeployments (Some (upsert exTwoOwners))))) = {''a''}"
    by (simp add: addTODO_def exTwoOwners_def NewControllerRef_def Kind_def observe_def
          runningWith_def emptyStatus_def)
  then show ?thesis
    by (simp add: exTwoOwners_def NewControllerRef_def)
qed

section \<open>Ownership conflicts\<close>

text \<open>
  C4. When the pass visits a name whose managed resource exists and whose target
  deployment has been observed, and that deployment is not controlled by the managed
  resource, the visit makes no request (the client is unchanged), appends the warning to
  the log and leaves the status as it is; and whatever the order of the pass and however it
  ends, short of a panic, the name is still in the dirty set after it.
\<close>

theorem not_owned_is_left_dirty:
  assumes "item \<in> todo (st p)"
    and "foos (st p) item = Some foo"
    and "deployments (st p) (DeploymentName (Spec foo)) = Some dep"
    and "\<not> IsControlledBy dep foo"
  shows "syncItem p item = Next (p\<lparr>logged := logged p @ [NotOwned (Namespace dep) (Name dep)]\<rparr>)
         \<and> (syncItems p order = Next p' \<or> syncItems p order = Failed e p'
              \<longrightarrow> item \<in> todo (st p'))"
proof -
  have c: "conflict (st p) item"
    using assms by (simp add: conflict_def)
  show ?thesis
    using not_owned_step[OF assms(2,3,4)] conflict_stays[OF assms(1) c] by blast
qed

theorem not_owned_is_left_dirty_witness:
  "''abc'' \<in> todo (st exConflict)
   \<and> foos (st exConflict) ''abc'' = Some exFoo
   \<and> deployments (st exConflict) (DeploymentName (Spec exFoo)) = Some exStolen
   \<and> \<not> IsControlledBy exStolen exFoo
   \<and> syncItem exConflict ''abc'' = Next (exConflict\<lparr>logged := [NotOwned ''xyz'' ''bar'']\<rparr>)
   \<and> syncItems exConflict [''abc''] = Next (exConflict\<lparr>logged := [NotOwned ''xyz'' ''bar'']\<rparr>)
   \<and> sent (kube (exConflict\<lparr>logged := [NotOwned ''xyz'' ''bar'']\<rparr>)) = []"
proof -
  have h1: "''abc'' \<in> todo (st exConflict)" by (simp add: exConflict_def)
  have h2: "foos (st exConflict) ''abc'' = Some exFoo" by (simp add: exConflict_def)
  have h3: "deployments (st exConflict) (DeploymentName (Spec exFoo)) = Some exStolen"
    by (simp add: exConflict_def exFoo_def)
  have h4: "\<not> IsControlledBy exStolen exFoo"
    by (simp add: IsControlledBy_def exStolen_def exFoo_def NewControllerRef_def newDeployment_def)
  have n: "Namespace exStolen = ''xyz''" "Name exStolen = ''bar''" "logged exConflict = []"
    by (simp_all add: exStolen_def newDeployment_def exFoo_def exConflict_def)
  from not_owned_is_left_dirty[OF h1 h2 h3 h4] n
  have s: "syncItem exConflict ''abc'' = Next (exConflict\<lparr>logged := [NotOwned ''xyz'' ''bar'']\<rparr>)"
    by simp
  have t: "todo (st (exConflict\<lparr>logged := [NotOwned ''xyz'' ''bar'']\<rparr>)) = {''abc''}"
    by (simp add: exConflict_def)
  show ?thesis using h1 h2 h3 h4 s by (simp add: exConflict_def okClient_def)
qed

section \<open>Stopping\<close>




section \<open>Errors while starting\<close>

text \<open>
  C6, as the code has it. When the registration request is answered with a
  \<^verbatim>\<open>RequestError\<close> whose status is not 409, or when it is not and the watch on the
  definition delivers an event with an error before the definition is established, then
  \<^verbatim>\<open>startAux\<close> sends that error once on the error output, behind the prefix
  \<^verbatim>\<open>Could not add CRD\<close>, closes the error output and stops: the stop channels of the
  two watches are as they were before (nil for a new controller, no watch is opened),
  and the loop receives nothing.
\<close>

theorem starting_error_reported_once:
  assumes "transport (client c) (length (sent (client c)))
             (AddCustomResourceDefinition (''foos'' @ ''.'' @ Group)) = posted"
    and "(rejected posted \<and> posted = Some err)
         \<or> (\<not> rejected posted \<and> waitEstablished resources = Some (Some err))"
  shows "Errors (ctl (startAux c resources)) = Errors c @ [Errorf ''Could not add CRD: '' err]
         \<and> ErrorsClosed (ctl (startAux c resources))
         \<and> phase (startAux c resources) = Stopped
         \<and> stopFoos (ctl (startAux c resources)) = stopFoos c
         \<and> stopDeployments (ctl (startAux c resources)) = stopDeployments c
         \<and> processResources (startAux c resources) ins = startAux c resources"
proof -
  have "fst (addFooCRD (client c) resources) = Some (Some err)"
    using assms by (auto simp: addFooCRD_def addCRD_result Let_def)
  from startAux_error[OF this] show ?thesis by simp
qed

theorem starting_error_reported_once_witness:
  "rejected (Some (RequestError 404 ''dummy''))
   \<and> Errors (ctl (startAux (NewController notFoundClient ''default'') [upsert exEstablished]))
       = [Errorf ''Could not add CRD: '' (RequestError 404 ''dummy'')]
   \<and> ErrorsClosed (ctl (startAux (NewController notFoundClient ''default'') [upsert exEstablished]))
   \<and> phase (startAux (NewController notFoundClient ''default'') [upsert exEstablished]) = Stopped
   \<and> stopFoos (ctl (startAux (NewController notFoundClient ''default'') [upsert exEstablished])) = NilChan
   \<and> stopDeployments (ctl (startAux (NewController notFoundClient ''default'') [upsert exEstablished])) = NilChan
   \<and> \<not> rejected None
   \<and> waitEstablished [errEvent (errorString ''Invalid EventType: XYZ'')]
        = Some (Some (errorString ''Invalid EventType: XYZ''))
   \<and> Errors (ctl (startAux (NewController okClient ''default'')
                    [errEvent (errorString ''Invalid EventType: XYZ'')]))
       = [Errorf ''Could not add CRD: '' (errorString ''Invalid EventType: XYZ'')]
   \<and> phase (startAux (NewController okClient ''default'')
                    [errEvent (errorString ''Invalid EventType: XYZ'')]) = Stopped"
proof -
  let ?c = "NewController notFoundClient ''default''"
  let ?d = "NewController okClient ''default''"
  have p1: "transport (client ?c) (length (sent (client ?c)))
             (AddCustomResourceDefinition (''foos'' @ ''.'' @ Group)) = Some (RequestError 404 ''dummy'')"
    by (simp add: NewController_def notFoundClient_def)
  have r1: "rejected (Some (RequestError 404 ''dummy''))" by (simp add: rejected_def)
  have p2: "transport (client ?d) (length (sent (client ?d)))
             (AddCustomResourceDefinition (''foos'' @ ''.'' @ Group)) = None"
    by (simp add: NewController_def okClient_def)
  have r2: "\<not> rejected None" by (simp add: rejected_def)
  have w: "waitEstablished [errEvent (errorString ''Invalid EventType: XYZ'')]
        = Some (Some (errorString ''Invalid EventType: XYZ''))"
    by (simp add: errEvent_def)
  have f: "Errors ?c = []" "stopFoos ?c = NilChan" "stopDeployments ?c = NilChan" "Errors ?d = []"
    by (simp_all add: NewController_def)
  from starting_error_reported_once[OF p1, of "RequestError 404 ''dummy''" "[upsert exEstablished]"] r1
  have a: "Errors (ctl (startAux ?c [upsert exEstablished])) = Errors ?c @ [Errorf ''Could not add CRD: '' (RequestError 404 ''dummy'')]
         \<and> ErrorsClosed (ctl (startAux ?c [upsert exEstablished]))
         \<and> phase (startAux ?c [upsert exEstablished]) = Stopped
         \<and> stopFoos (ctl (startAux ?c [upsert exEstablished])) = stopFoos ?c
         \<and> stopDeployments (ctl (startAux ?c [upsert exEstablished])) = stopDeployments ?c"
    by blast
  from starting_error_reported_once[OF p2, of "errorString ''Invalid EventType: XYZ''"
      "[errEvent (errorString ''Invalid EventType: XYZ'')]"] r2 w
  have b: "Errors (ctl (startAux ?d [errEvent (errorString ''Invalid EventType: XYZ'')]))
             = Errors ?d @ [Errorf ''Could not add CRD: '' (errorString ''Invalid EventType: XYZ'')]
         \<and> phase (startAux ?d [errEvent (errorString ''Invalid EventType: XYZ'')]) = Stopped"
    by blast
  from a b r1 r2 w show ?thesis unfolding f by simp
qed

text \<open>
  The claim as stated covers every error of the registration. An error of the registration
  request that is not a \<^verbatim>\<open>RequestError\<close> (the request got no reply) fails the type
  assertion in \<^verbatim>\<open>addCRD\<close> and is dropped: when the watch then reports the definition
  established, nothing is reported, both watches are opened and the loop runs.
\<close>

theorem registration_transport_error_not_reported:
  "transport refusedClient (length (sent refusedClient))
      (AddCustomResourceDefinition (''foos'' @ ''.'' @ Group)) = Some (errorString ''connection refused'')
   \<and> phase (startAux (NewController refusedClient ''default'') [upsert exEstablished]) = Running
   \<and> Errors (ctl (startAux (NewController refusedClient ''default'') [upsert exEstablished])) = []
   \<and> stopFoos (ctl (startAux (NewController refusedClient ''default'') [upsert exEstablished])) = OpenChan
   \<and> stopDeployments (ctl (startAux (NewController refusedClient ''default'') [upsert exEstablished])) = OpenChan"
  by (simp add: startAux_def addFooCRD_def addCRD_def putOrPost_def refusedClient_def
        NewController_def upsert_def exEstablished_def Let_def)

section \<open>Asking for a tick after the stop\<close>

text \<open>
  C7, as the code has it. In every execution of the rate limiter from its start: as long as
  the goroutine has not received the stop, a call of \<^verbatim>\<open>AskTick\<close> returns, with the timer
  running anew; once it has received the stop, a call of \<^verbatim>\<open>AskTick\<close> does not return.
\<close>

theorem ask_returns_until_stopped:
  assumes "rlRun AfterOneSecondIdle evs = Some r"
  shows "(Takes RecvStop \<notin> set evs \<longrightarrow> AskTick r = Some (r\<lparr>timer := Armed\<rparr>))
         \<and> (Takes RecvStop \<in> set evs \<longrightarrow> AskTick r = None)"
  using rlRun_alive[OF assms] by (auto simp: AskTick_def AfterOneSecondIdle_def)

theorem ask_returns_until_stopped_witness:
  "rlRun AfterOneSecondIdle [Takes RecvAsk, Expires, Takes RecvTimer, Takes SendTick]
     = Some \<lparr>alive = True, timer = Idle, tickOn = False\<rparr>
   \<and> AskTick \<lparr>alive = True, timer = Idle, tickOn = False\<rparr>
     = Some \<lparr>alive = True, timer = Armed, tickOn = False\<rparr>"
proof -
  have r: "rlRun AfterOneSecondIdle [Takes RecvAsk, Expires, Takes RecvTimer, Takes SendTick]
     = Some \<lparr>alive = True, timer = Idle, tickOn = False\<rparr>"
    by (simp add: AfterOneSecondIdle_def)
  from ask_returns_until_stopped[OF r] r show ?thesis by simp
qed

text \<open>
  The claim as stated has the call return after the stop. \<^verbatim>\<open>Stop\<close> makes the goroutine
  return, and the goroutine is the only receiver of the channel \<^verbatim>\<open>ask\<close>: the send in
  \<^verbatim>\<open>AskTick\<close> blocks for ever.
\<close>

theorem ask_after_stop_never_returns:
  "Stop AfterOneSecondIdle = Some \<lparr>alive = False, timer = Idle, tickOn = False\<rparr>
   \<and> AskTick \<lparr>alive = False, timer = Idle, tickOn = False\<rparr> = None"
  by (simp add: Stop_def AskTick_def AfterOneSecondIdle_def)

section \<open>Registration of a type that exists\<close>

text \<open>
  C8. When the server answers the registration request with the status 409, \<^verbatim>\<open>addCRD\<close>
  returns what the wait for the established condition returns, as it does when the request
  succeeds: the conflict is no error. For the controller: if the watch then reports the
  definition established, \<^verbatim>\<open>startAux\<close> reports no error and the loop runs.
\<close>

theorem registration_conflict_is_success:
  assumes "transport cl (length (sent cl)) (AddCustomResourceDefinition name)
             = Some (RequestError 409 body)"
  shows "fst (addCRD cl name resources) = waitEstablished resources
         \<and> (client c = cl \<and> name = ''foos'' @ ''.'' @ Group \<and> waitEstablished resources = Some None
              \<longrightarrow> phase (startAux c resources) = Running
                  \<and> Errors (ctl (startAux c resources)) = Errors c)"
proof -
  have 1: "fst (addCRD cl name resources) = waitEstablished resources"
    using assms by (simp add: addCRD_result rejected_def)
  have "phase (startAux c resources) = Running \<and> Errors (ctl (startAux c resources)) = Errors c"
    if "client c = cl" "name = ''foos'' @ ''.'' @ Group" "waitEstablished resources = Some None"
  proof -
    from 1 that have "fst (addFooCRD (client c) resources) = Some None"
      by (simp add: addFooCRD_def)
    then show ?thesis
      by (cases "addFooCRD (client c) resources") (simp add: startAux_def)
  qed
  with 1 show ?thesis by blast
qed

theorem registration_conflict_is_success_witness:
  "transport conflictClient (length (sent conflictClient))
      (AddCustomResourceDefinition (''foos'' @ ''.'' @ Group)) = Some (RequestError 409 ''already exists'')
   \<and> waitEstablished [upsert exEstablished] = Some None
   \<and> fst (addCRD conflictClient (''foos'' @ ''.'' @ Group) [upsert exEstablished]) = Some None
   \<and> phase (startAux (NewController conflictClient ''default'') [upsert exEstablished]) = Running
   \<and> Errors (ctl (startAux (NewController conflictClient ''default'') [upsert exEstablished])) = []"
proof -
  have p: "transport conflictClient (length (sent conflictClient))
      (AddCustomResourceDefinition (''foos'' @ ''.'' @ Group)) = Some (RequestError 409 ''already exists'')"
    by (simp add: conflictClient_def)
  have w: "waitEstablished [upsert exEstablished] = Some None"
    by (simp add: upsert_def exEstablished_def)
  have c: "client (NewController conflictClient ''default'') = conflictClient"
    "Errors (NewController conflictClient ''default'') = []"
    by (simp_all add: NewController_def)
  from registration_conflict_is_success[OF p, of "[upsert exEstablished]"
      "NewController conflictClient ''default''"] p w c
  show ?thesis by simp
qed

section \<open>The dirty set\<close>

text \<open>
  C9. For every state of the loop and every input: a name leaves the dirty set only on a
  tick, and only if it has no managed resource, or the deployment it names is observed,
  controlled by it and has the wanted replica count, or a request for it was answered
  without an error in that step; a name with an ownership conflict stays in the dirty
  set; when the pass fails, the request that failed was for a name that is still in the
  dirty set and the status the loop keeps is the one the pass had reached; and a failure
  at a later name keeps the names completed before it removed.
\<close>

theorem dirty_names_leave_only_when_done:
  "(n \<in> todo (status s) \<and> n \<notin> todo (status (step s i))
      \<longrightarrow> (\<exists>order. i = FromTick order)
          \<and> (foos (status s) n = None \<or> converged (status s) n
             \<or> succeeded (client (ctl s)) (client (ctl (step s i))) (status s) n))
   \<and> (n \<in> todo (status s) \<and> conflict (status s) n \<longrightarrow> n \<in> todo (status (step s i)))
   \<and> (phase s = Running
        \<and> synchronize (client (ctl s)) (status s) (logs s) order = Failed e p'
      \<longrightarrow> status (step s (FromTick order)) = st p'
          \<and> (\<exists>m r. m \<in> todo (st p') \<and> requestFor (status s) m = Some r
                 \<and> last (sent (kube p')) = (r, Some e)))
   \<and> (syncItems p xs = Next p1 \<and> y \<in> todo (st p1) \<and> syncItem p1 y = Failed e p2
      \<longrightarrow> syncItems p (xs @ y # rest) = Failed e p2 \<and> st p2 = st p1)"
proof (intro conjI impI)
  assume a: "phase s = Running \<and> synchronize (client (ctl s)) (status s) (logs s) order = Failed e p'"
  then show "status (step s (FromTick order)) = st p'"
    by (simp add: step_status onTick_def)
  from a syncItems_failed[of "\<lparr>kube = client (ctl s), st = status s, logged = logs s\<rparr>" order e p']
  show "\<exists>m r. m \<in> todo (st p') \<and> requestFor (status s) m = Some r
                 \<and> last (sent (kube p')) = (r, Some e)"
    by (auto simp: synchronize_def)
qed (use step_removed step_conflict failure_keeps_progress in blast)+

theorem dirty_names_leave_only_when_done_witness:
  "''gone'' \<in> todo (status (runningWith failClient exPending))
   \<and> ''gone'' \<notin> todo (status (step (runningWith failClient exPending) (FromTick [''gone'', ''abc''])))
   \<and> foos (status (runningWith failClient exPending)) ''gone'' = None
   \<and> conflict (st exConflict) ''abc''
   \<and> ''abc'' \<in> todo (status (step (runningWith okClient (st exConflict)) (FromTick [''abc''])))
   \<and> status (step (runningWith failClient exPending) (FromTick [''gone'', ''abc''])) = st exFailed
   \<and> ''abc'' \<in> todo (st exFailed)
   \<and> syncItems \<lparr>kube = failClient, st = exPending, logged = []\<rparr> [''gone'', ''abc'', ''later'']
       = Failed (RequestError 401 ''3 is not OK'') exFailed"
proof -
  let ?s = "runningWith failClient exPending"
  let ?e = "RequestError 401 ''3 is not OK''"
  have run: "phase ?s = Running" "client (ctl ?s) = failClient" "status ?s = exPending" "logs ?s = []"
    by (simp_all add: runningWith_def NewController_def)
  have pass: "synchronize (client (ctl ?s)) (status ?s) (logs ?s) [''gone'', ''abc''] = Failed ?e exFailed"
    using ex_pass by (simp add: run)
  have third: "status (step ?s (FromTick [''gone'', ''abc''])) = st exFailed"
    using dirty_names_leave_only_when_done[of _ ?s _ "[''gone'', ''abc'']" ?e exFailed] run(1) pass
    by blast
  have h1: "''gone'' \<in> todo (status ?s)" by (simp add: runningWith_def exPending_def)
  have h2: "''gone'' \<notin> todo (status (step ?s (FromTick [''gone'', ''abc''])))"
    by (simp add: third exFailed_def)
  have reason: "foos (status ?s) ''gone'' = None \<or> converged (status ?s) ''gone''
      \<or> succeeded (client (ctl ?s)) (client (ctl (step ?s (FromTick [''gone'', ''abc'']))))
           (status ?s) ''gone''"
    using dirty_names_leave_only_when_done[of "''gone''" ?s "FromTick [''gone'', ''abc'']"] h1 h2
    by blast
  have first: "foos (status ?s) ''gone'' = None"
    by (simp add: runningWith_def exPending_def)
  have c: "conflict (st exConflict) ''abc''"
    by (simp add: conflict_def exConflict_def exFoo_def IsControlledBy_def exStolen_def
          NewControllerRef_def newDeployment_def)
  have c1: "''abc'' \<in> todo (status (runningWith okClient (st exConflict)))"
    by (simp add: runningWith_def exConflict_def)
  have c2: "conflict (status (runningWith okClient (st exConflict))) ''abc''"
    using c by (simp add: runningWith_def)
  have second: "''abc'' \<in> todo (status (step (runningWith okClient (st exConflict)) (FromTick [''abc''])))"
    using dirty_names_leave_only_when_done[of "''abc''" "runningWith okClient (st exConflict)"
        "FromTick [''abc'']"] c1 c2 by blast
  have f1: "syncItems \<lparr>kube = failClient, st = exPending, logged = []\<rparr> [''gone'']
              = Next \<lparr>kube = failClient, st = exPending\<lparr>todo := {''abc''}\<rparr>, logged = []\<rparr>"
    using ex_gone by (simp add: exPending_def)
  have f2: "''abc'' \<in> todo (st \<lparr>kube = failClient, st = exPending\<lparr>todo := {''abc''}\<rparr>, logged = []\<rparr>)"
    by simp
  have fourth: "syncItems \<lparr>kube = failClient, st = exPending, logged = []\<rparr> ([''gone''] @ ''abc'' # [''later''])
                  = Failed ?e exFailed"
    using dirty_names_leave_only_when_done[of _ _ _ _ ?e _
        "\<lparr>kube = failClient, st = exPending, logged = []\<rparr>" "[''gone'']"
        "\<lparr>kube = failClient, st = exPending\<lparr>todo := {''abc''}\<rparr>, logged = []\<rparr>" "''abc''"
        exFailed "[''later'']"] f1 f2 ex_abc by blast
  have l: "''abc'' \<in> todo (st exFailed)" by (simp add: exFailed_def)
  from h1 h2 reason first c second third l fourth show ?thesis by simp
qed

section \<open>The replica count of an observed deployment\<close>

text \<open>
  C10. The visit of a name dereferences a nil pointer exactly when the managed resource
  exists, the deployment it names is observed and controlled by it, and that deployment
  has no replica count. So a pass cannot panic when every observed deployment has a replica
  count, whatever its order. And the panic is reached: the loop dies on the tick that
  follows a managed resource and an event for its own deployment without
  \<^verbatim>\<open>spec.replicas\<close>.
\<close>

theorem nil_replicas_crash_the_pass:
  "(syncItem p item = NilDereference \<longleftrightarrow>
      (\<exists>foo dep. foos (st p) item = Some foo
         \<and> deployments (st p) (DeploymentName (Spec foo)) = Some dep
         \<and> IsControlledBy dep foo \<and> depReplicas (DSpec dep) = None))
   \<and> ((\<forall>name dep. deployments cs name = Some dep \<longrightarrow> depReplicas (DSpec dep) \<noteq> None)
        \<longrightarrow> synchronize cl cs lg order \<noteq> NilDereference)
   \<and> phase (processResources (runningWith okClient emptyStatus)
            [FromFoos (Some (upsert exFoo)), FromDeployments (Some (upsert exNoReplicas)),
             FromTick [''abc'']]) = Crashed"
proof (intro conjI impI)
  show "syncItem p item = NilDereference \<longleftrightarrow>
      (\<exists>foo dep. foos (st p) item = Some foo
         \<and> deployments (st p) (DeploymentName (Spec foo)) = Some dep
         \<and> IsControlledBy dep foo \<and> depReplicas (DSpec dep) = None)"
    by (rule syncItem_nil)
  show "synchronize cl cs lg order \<noteq> NilDereference"
    if "\<forall>name dep. deployments cs name = Some dep \<longrightarrow> depReplicas (DSpec dep) \<noteq> None"
    using that syncItems_nil[of "\<lparr>kube = cl, st = cs, logged = lg\<rparr>" order]
    unfolding synchronize_def by fastforce
  show "phase (processResources (runningWith okClient emptyStatus)
            [FromFoos (Some (upsert exFoo)), FromDeployments (Some (upsert exNoReplicas)),
             FromTick [''abc'']]) = Crashed"
    by (rule ex_crash)
qed

theorem nil_replicas_crash_the_pass_witness:
  "deployments (st exConflict) = [''bar'' \<mapsto> exStolen]
   \<and> depReplicas (DSpec exStolen) = Some 1
   \<and> synchronize okClient (st exConflict) [] [''abc''] \<noteq> NilDereference
   \<and> foos (st (exConflict\<lparr>st := (st exConflict)\<lparr>deployments := [''bar'' \<mapsto> exNoReplicas]\<rparr>\<rparr>)) ''abc''
        = Some exFoo
   \<and> IsControlledBy exNoReplicas exFoo
   \<and> depReplicas (DSpec exNoReplicas) = None
   \<and> syncItem (exConflict\<lparr>st := (st exConflict)\<lparr>deployments := [''bar'' \<mapsto> exNoReplicas]\<rparr>\<rparr>) ''abc''
        = NilDereference"
proof -
  let ?p = "exConflict\<lparr>st := (st exConflict)\<lparr>deployments := [''bar'' \<mapsto> exNoReplicas]\<rparr>\<rparr>"
  have h: "\<forall>name dep. deployments (st exConflict) name = Some dep \<longrightarrow> depReplicas (DSpec dep) \<noteq> None"
    by (simp add: exConflict_def exStolen_def newDeployment_def)
  have a: "synchronize okClient (st exConflict) [] [''abc''] \<noteq> NilDereference"
    using nil_replicas_crash_the_pass[of _ _ "st exConflict" okClient "[]" "[''abc'']"] h by blast
  have f: "foos (st ?p) ''abc'' = Some exFoo"
    "deployments (st ?p) (DeploymentName (Spec exFoo)) = Some exNoReplicas"
    by (simp_all add: exConflict_def exFoo_def)
  have c: "IsControlledBy exNoReplicas exFoo"
    by (simp add: IsControlledBy_def exNoReplicas_def newDeployment_def NewControllerRef_def)
  have n: "depReplicas (DSpec exNoReplicas) = None"
    by (simp add: exNoReplicas_def)
  have b: "syncItem ?p ''abc'' = NilDereference"
    using nil_replicas_crash_the_pass[of ?p "''abc''"] f c n by blast
  have d: "deployments (st exConflict) = [''bar'' \<mapsto> exStolen]"
    "depReplicas (DSpec exStolen) = Some 1"
    by (simp_all add: exConflict_def exStolen_def newDeployment_def exFoo_def)
  from d a f(1) c n b show ?thesis by blast
qed

end
